theory Spec2Isabelle
  imports Complex_Main "HOL-Library.Sublist"
begin

section \<open>The realtime channel connection manager (src/hooks/use-websocket.ts)\<close>

text \<open>
  The hook \<^verbatim>\<open>useWebSocket(channelId)\<close> keeps React state (\<^verbatim>\<open>messages\<close>,
  \<^verbatim>\<open>isConnected\<close>, \<^verbatim>\<open>error\<close>), two refs (\<^verbatim>\<open>socketRef\<close>,
  \<^verbatim>\<open>processedMessageIds\<close>) and, for every run of its effect that gets past the
  bind-time checks, a closure holding \<^verbatim>\<open>reconnectAttempts\<close> and
  \<^verbatim>\<open>reconnectTimeout\<close>. The handlers installed on each socket are functions of that
  state; the browser decides when they run. The embedding below passes the state
  explicitly and writes every handler as a function from state to state.
\<close>

subsection \<open>JSON values as \<^verbatim>\<open>JSON.parse\<close> returns them\<close>

text \<open>
  A JSON number is a double; \<^verbatim>\<open>JSON.parse\<close> never yields NaN. The handlers only test
  numbers for equality (as \<^verbatim>\<open>Set\<close> keys, where +0 and -0 are the same key) and for
  truthiness, so a finite double is represented by its rational value.
\<close>

datatype jsnum = Finite rat | PosInfinity | NegInfinity

datatype json =
    JNull
  | JBool bool
  | JNum jsnum
  | JStr string
  | JArr "json list"
  | JObj "(string \<times> json) list"

text \<open>Exceptions of the platform functions the hook calls.\<close>

datatype exn = SyntaxError | TypeError | URIError

text \<open>
  Reading a property \<^verbatim>\<open>data.k\<close>, for the names the handlers read (\<^verbatim>\<open>type\<close>,
  \<^verbatim>\<open>id\<close>, \<^verbatim>\<open>media_url\<close>): on \<^verbatim>\<open>null\<close> it throws a TypeError, on an object
  it is the own property or \<^verbatim>\<open>undefined\<close> (here \<open>None\<close>), on every other value it
  is \<^verbatim>\<open>undefined\<close>.
\<close>

fun property :: "json \<Rightarrow> string \<Rightarrow> exn + json option" where
  "property JNull k = Inl TypeError"
| "property (JObj ps) k = Inr (map_of ps k)"
| "property v k = Inr None"

text \<open>The assignment \<^verbatim>\<open>data.k = v\<close> on an object: an existing key keeps its place.\<close>

fun assign :: "string \<Rightarrow> json \<Rightarrow> (string \<times> json) list \<Rightarrow> (string \<times> json) list" where
  "assign k v [] = [(k, v)]"
| "assign k v (p # ps) = (if fst p = k then (k, v) # ps else p # assign k v ps)"

fun set_prop :: "json \<Rightarrow> string \<Rightarrow> json \<Rightarrow> json" where
  "set_prop (JObj ps) k v = JObj (assign k v ps)"
| "set_prop d k v = d"

text \<open>JavaScript truthiness of a value that may be \<^verbatim>\<open>undefined\<close>.\<close>

fun truthy :: "json option \<Rightarrow> bool" where
  "truthy None = False"
| "truthy (Some JNull) = False"
| "truthy (Some (JBool b)) = b"
| "truthy (Some (JNum n)) = (n \<noteq> Finite 0)"
| "truthy (Some (JStr s)) = (s \<noteq> [])"
| "truthy (Some (JArr xs)) = True"
| "truthy (Some (JObj ps)) = True"

subsection \<open>The dedup ledger: \<^verbatim>\<open>processedMessageIds\<close>, a JavaScript \<^verbatim>\<open>Set\<close>\<close>

text \<open>
  The keys are whatever \<^verbatim>\<open>data.id\<close> evaluates to, \<^verbatim>\<open>undefined\<close> included. A
  \<^verbatim>\<open>Set\<close> compares primitive keys by value and objects and arrays by reference; every
  \<^verbatim>\<open>JSON.parse\<close> builds new objects, so an object or array key of a newly parsed
  envelope is never found in the set.
\<close>

type_synonym ledger = "json option list"

fun primitive :: "json option \<Rightarrow> bool" where
  "primitive (Some (JArr xs)) = False"
| "primitive (Some (JObj ps)) = False"
| "primitive k = True"

definition has :: "ledger \<Rightarrow> json option \<Rightarrow> bool" where
  "has l k = (primitive k \<and> k \<in> set l)"

definition add :: "ledger \<Rightarrow> json option \<Rightarrow> ledger" where
  "add l k = (if has l k then l else l @ [k])"

subsection \<open>Backoff delay\<close>

text \<open>
  \<^verbatim>\<open>Math.min(1000 * Math.pow(2, reconnectAttempts), 30000)\<close>, in milliseconds. The
  powers of two and their products with 1000 are exact in double arithmetic.
\<close>

definition maxReconnectAttempts :: nat where
  "maxReconnectAttempts = 5"

definition delay :: "nat \<Rightarrow> nat" where
  "delay reconnectAttempts = min (1000 * 2 ^ reconnectAttempts) 30000"

subsection \<open>The browser: what the hook reads from it and what may throw\<close>

record browser =
  localStorage_token :: "string option"
  document_cookie :: string
  decodeURIComponent :: "string \<Rightarrow> exn + string"
  WebSocket_throws :: "string \<Rightarrow> bool"

text \<open>
  \<open>localStorage_token\<close> is \<^verbatim>\<open>localStorage.getItem("token")\<close>;
  \<open>WebSocket_throws u\<close> says that \<^verbatim>\<open>new WebSocket(u)\<close> throws.
  \<^verbatim>\<open>s.split(sep)\<close> for a non-empty separator:
\<close>

fun split_from :: "string \<Rightarrow> string \<Rightarrow> string \<Rightarrow> string list" where
  "split_from sep acc [] = [acc]"
| "split_from sep acc (c # cs) =
     (if sep \<noteq> [] \<and> prefix sep (c # cs)
      then acc # split_from sep [] (drop (length sep) (c # cs))
      else split_from sep (acc @ [c]) cs)"

definition js_split :: "string \<Rightarrow> string \<Rightarrow> string list" where
  "js_split sep s = split_from sep [] s"

text \<open>
  \<^verbatim>\<open>document.cookie.split("; ").find((row) => row.startsWith("token="))?.split("=")[1]\<close>
\<close>

definition tokenFromCookie :: "string \<Rightarrow> string option" where
  "tokenFromCookie cookie =
     (case find (\<lambda>row. prefix ''token='' row) (js_split ''; '' cookie) of
        None \<Rightarrow> None
      | Some row \<Rightarrow>
          (case js_split ''='' row of
             a # v # rest \<Rightarrow> Some v
           | _ \<Rightarrow> None))"

definition getToken :: "browser \<Rightarrow> exn + string option" where
  "getToken b =
     (case localStorage_token b of
        Some (c # cs) \<Rightarrow> Inr (Some (c # cs))
      | _ \<Rightarrow>
          (case tokenFromCookie (document_cookie b) of
             Some (c # cs) \<Rightarrow>
               (case decodeURIComponent b (c # cs) of
                  Inl e \<Rightarrow> Inl e
                | Inr t \<Rightarrow> Inr (Some t))
           | _ \<Rightarrow> Inr None))"

subsection \<open>Sockets, timers and the state of the hook\<close>

datatype ready_state = CONNECTING | OPEN | CLOSING | CLOSED

text \<open>
  A text frame written to a socket: the JSON text of a value, or the text
  \<^verbatim>\<open>undefined\<close> (what \<^verbatim>\<open>send\<close> writes when \<^verbatim>\<open>JSON.stringify\<close> returned
  \<^verbatim>\<open>undefined\<close>).
\<close>

datatype frame = JSON_text json | Text_undefined

text \<open>
  One closure per run of the effect that reaches \<^verbatim>\<open>let reconnectAttempts = 0\<close>: the
  variables its handlers and its timer callback share.
\<close>

record closure =
  channelId :: string
  token :: string
  reconnectAttempts :: nat
  reconnectTimeout :: "nat option"

record websocket =
  url :: string
  closure_of :: nat
  readyState :: ready_state
  sent :: "frame list"

record timer =
  callback_of :: nat
  timeout :: nat
  pending :: bool

text \<open>
  \<open>cleanup\<close> is the cleanup function React holds for the last run of the effect (the
  closure it belongs to, \<open>None\<close> when that run returned nothing); \<open>deps\<close> is the
  dependency array of the last run (\<open>None\<close> before the first).
\<close>

record world =
  messages :: "json list"
  isConnected :: bool
  error :: "string option"
  socketRef :: "nat option"
  processedMessageIds :: ledger
  closures :: "closure list"
  sockets :: "websocket list"
  timers :: "timer list"
  cleanup :: "nat option"
  deps :: "string option option"

definition mount :: world where
  "mount = \<lparr>messages = [], isConnected = False, error = None, socketRef = None,
     processedMessageIds = [], closures = [], sockets = [], timers = [],
     cleanup = None, deps = None\<rparr>"

text \<open>
  \<^verbatim>\<open>socket.close()\<close> and \<^verbatim>\<open>socket.close(1000, reason)\<close>: a connecting or open
  socket starts closing, a closing or closed one is left alone. The close event comes
  later, from the browser.
\<close>

definition close :: "nat \<Rightarrow> world \<Rightarrow> world" where
  "close s w =
     (if s < length (sockets w)
         \<and> (readyState (sockets w ! s) = CONNECTING \<or> readyState (sockets w ! s) = OPEN)
      then w\<lparr>sockets := (sockets w)[s := (sockets w ! s)\<lparr>readyState := CLOSING\<rparr>]\<rparr>
      else w)"

text \<open>
  \<^verbatim>\<open>socket.send(text)\<close>. Both calls in the hook are made on an open socket; on a
  closing or closed socket the browser discards the data.
\<close>

definition send :: "nat \<Rightarrow> frame \<Rightarrow> world \<Rightarrow> world" where
  "send s m w =
     (if s < length (sockets w) \<and> readyState (sockets w ! s) = OPEN
      then w\<lparr>sockets := (sockets w)[s := (sockets w ! s)\<lparr>sent := sent (sockets w ! s) @ [m]\<rparr>]\<rparr>
      else w)"

definition setTimeout :: "nat \<Rightarrow> nat \<Rightarrow> world \<Rightarrow> nat \<times> world" where
  "setTimeout c ms w =
     (length (timers w),
      w\<lparr>timers := timers w @ [\<lparr>callback_of = c, timeout = ms, pending = True\<rparr>]\<rparr>)"

definition clearTimeout :: "nat option \<Rightarrow> world \<Rightarrow> world" where
  "clearTimeout t w =
     (case t of
        None \<Rightarrow> w
      | Some i \<Rightarrow>
          (if i < length (timers w)
           then w\<lparr>timers := (timers w)[i := (timers w ! i)\<lparr>pending := False\<rparr>]\<rparr>
           else w))"

subsection \<open>The handlers of \<^verbatim>\<open>connectWebSocket\<close>\<close>

text \<open>
  Each handler is the source's, with the closure \<open>c\<close> it belongs to and the socket
  \<open>s\<close> it was installed on as arguments.
\<close>

definition update_closure :: "nat \<Rightarrow> (closure \<Rightarrow> closure) \<Rightarrow> world \<Rightarrow> world" where
  "update_closure c f w = w\<lparr>closures := (closures w)[c := f (closures w ! c)]\<rparr>"

definition onopen :: "nat \<Rightarrow> nat \<Rightarrow> world \<Rightarrow> world" where
  "onopen c s w =
     (let w1 = send s (JSON_text (JObj [(''token'', JStr (token (closures w ! c)))])) w;
          w2 = w1\<lparr>isConnected := True, error := None\<rparr>
      in update_closure c (\<lambda>k. k\<lparr>reconnectAttempts := 0\<rparr>) w2)"

text \<open>
  The body of the \<^verbatim>\<open>try\<close> in \<^verbatim>\<open>onmessage\<close>, after \<^verbatim>\<open>JSON.parse\<close>. Only the
  first property read can throw (on \<^verbatim>\<open>null\<close>), before anything is changed.
\<close>

definition normalise :: "json option \<Rightarrow> json option \<Rightarrow> json \<Rightarrow> json" where
  "normalise type media_url data =
     (if type = Some (JStr ''media'') \<or> truthy media_url
      then (if truthy media_url then set_prop data ''type'' (JStr ''media'') else data)
      else data)"

definition handle :: "json \<Rightarrow> world \<Rightarrow> exn + world" where
  "handle data w =
     (case property data ''type'' of
        Inl e \<Rightarrow> Inl e
      | Inr type \<Rightarrow>
          if type = Some (JStr ''message'') \<or> type = Some (JStr ''media'') then
            (case property data ''id'' of
               Inl e \<Rightarrow> Inl e
             | Inr ident \<Rightarrow>
                 if \<not> has (processedMessageIds w) ident then
                   (case property data ''media_url'' of
                      Inl e \<Rightarrow> Inl e
                    | Inr media_url \<Rightarrow>
                        Inr (w\<lparr>processedMessageIds := add (processedMessageIds w) ident,
                               messages := messages w @ [normalise type media_url data]\<rparr>))
                 else Inr w)
          else Inr w)"

text \<open>
  \<open>parsed\<close> is the result of \<^verbatim>\<open>JSON.parse(event.data)\<close>, \<open>Inl SyntaxError\<close> when
  it throws. The \<^verbatim>\<open>catch\<close> only logs.
\<close>

definition onmessage :: "exn + json \<Rightarrow> world \<Rightarrow> world" where
  "onmessage parsed w =
     (case parsed of
        Inl e \<Rightarrow> w
      | Inr data \<Rightarrow>
          (case handle data w of
             Inl e \<Rightarrow> w
           | Inr w' \<Rightarrow> w'))"

text \<open>\<open>errorMessage\<close> is \<^verbatim>\<open>JSON.stringify(event)\<close>; an event is always an object.\<close>

definition onerror :: "string \<Rightarrow> world \<Rightarrow> world" where
  "onerror errorMessage w =
     w\<lparr>error := Some (''WebSocket error: '' @ errorMessage), isConnected := False\<rparr>"

definition onclose :: "nat \<Rightarrow> nat \<Rightarrow> world \<Rightarrow> world" where
  "onclose c code w =
     (let w1 = w\<lparr>isConnected := False\<rparr> in
      if code = 4001 \<or> code = 1008 then
        w1\<lparr>error := Some ''Not authorized to access this channel''\<rparr>
      else if reconnectAttempts (closures w1 ! c) < maxReconnectAttempts \<and> code \<noteq> 1000 then
        (case setTimeout c (delay (reconnectAttempts (closures w1 ! c))) w1 of
           (t, w2) \<Rightarrow> update_closure c (\<lambda>k. k\<lparr>reconnectTimeout := Some t\<rparr>) w2)
      else if reconnectAttempts (closures w1 ! c) \<ge> maxReconnectAttempts then
        w1\<lparr>error := Some ''Could not reconnect to chat. Please refresh the page.''\<rparr>
      else w1)"

definition wsUrl :: "string \<Rightarrow> string" where
  "wsUrl ch = ''wss://api.loryx.lol/chat/channels/'' @ ch @ ''/ws''"

definition connectWebSocket :: "browser \<Rightarrow> nat \<Rightarrow> world \<Rightarrow> world" where
  "connectWebSocket b c w =
     (if WebSocket_throws b (wsUrl (channelId (closures w ! c))) then
        w\<lparr>error := Some ''Failed to create WebSocket connection'', isConnected := False\<rparr>
      else
        w\<lparr>sockets := sockets w @
             [\<lparr>url = wsUrl (channelId (closures w ! c)), closure_of = c,
               readyState = CONNECTING, sent = []\<rparr>],
          socketRef := Some (length (sockets w))\<rparr>)"

text \<open>The callback given to \<^verbatim>\<open>setTimeout\<close> in \<^verbatim>\<open>onclose\<close>.\<close>

definition reconnect :: "browser \<Rightarrow> nat \<Rightarrow> world \<Rightarrow> world" where
  "reconnect b c w =
     connectWebSocket b c
       (update_closure c (\<lambda>k. k\<lparr>reconnectAttempts := reconnectAttempts k + 1\<rparr>) w)"

subsection \<open>\<^verbatim>\<open>sendMessage\<close>\<close>

text \<open>
  The argument of \<^verbatim>\<open>sendMessage\<close>: a string, or an object. \<open>Obj v\<close> is an object
  that \<^verbatim>\<open>JSON.stringify\<close> turns into the JSON text of \<open>v\<close>, \<open>No_text\<close> one for
  which it returns \<^verbatim>\<open>undefined\<close> (a function), \<open>Throwing\<close> one on which it throws
  (a cyclic object).
\<close>

datatype payload = Str string | Obj json | No_text | Throwing

fun messageToSend :: "payload \<Rightarrow> exn + frame" where
  "messageToSend (Str content) = Inr (JSON_text (JObj [(''content'', JStr content)]))"
| "messageToSend (Obj v) = Inr (JSON_text v)"
| "messageToSend No_text = Inr Text_undefined"
| "messageToSend Throwing = Inl TypeError"

definition sendMessage :: "payload \<Rightarrow> world \<Rightarrow> bool \<times> world" where
  "sendMessage content w =
     (case socketRef w of
        None \<Rightarrow> (False, w\<lparr>error := Some ''WebSocket not connected''\<rparr>)
      | Some s \<Rightarrow>
          if readyState (sockets w ! s) \<noteq> OPEN then
            (False, w\<lparr>error := Some ''WebSocket not connected''\<rparr>)
          else
            (case messageToSend content of
               Inl e \<Rightarrow> (False, w\<lparr>error := Some ''Failed to send message''\<rparr>)
             | Inr m \<Rightarrow> (True, send s m w)))"

subsection \<open>The effect and its cleanup\<close>

definition cleanup_fn :: "nat \<Rightarrow> world \<Rightarrow> world" where
  "cleanup_fn c w =
     (let w1 = clearTimeout (reconnectTimeout (closures w ! c)) w in
      case socketRef w1 of
        None \<Rightarrow> w1
      | Some s \<Rightarrow> close s w1)"

text \<open>
  The body of the effect for the argument \<open>ch\<close> of the hook. The first component of
  the result is the exception that left the body, if any (\<^verbatim>\<open>decodeURIComponent\<close> may
  throw inside \<^verbatim>\<open>getToken\<close>); the second is the state at that point or at the return.
\<close>

definition effect :: "browser \<Rightarrow> string option \<Rightarrow> world \<Rightarrow> exn option \<times> world" where
  "effect b ch w0 =
     (let w = w0\<lparr>messages := [], processedMessageIds := [], cleanup := None\<rparr> in
      case ch of
        None \<Rightarrow> (None, w\<lparr>isConnected := False\<rparr>)
      | Some [] \<Rightarrow> (None, w\<lparr>isConnected := False\<rparr>)
      | Some (x # xs) \<Rightarrow>
          if x # xs = ''undefined'' then
            (None, w\<lparr>error := Some ''Invalid channel ID'', isConnected := False\<rparr>)
          else
            (case getToken b of
               Inl e \<Rightarrow> (Some e, w)
             | Inr None \<Rightarrow> (None, w\<lparr>error := Some ''Not authenticated''\<rparr>)
             | Inr (Some []) \<Rightarrow> (None, w\<lparr>error := Some ''Not authenticated''\<rparr>)
             | Inr (Some (t # ts)) \<Rightarrow>
                 (let w1 = (case socketRef w of None \<Rightarrow> w | Some s \<Rightarrow> close s w);
                      c = length (closures w1);
                      w2 = w1\<lparr>closures := closures w1 @
                             [\<lparr>channelId = x # xs, token = t # ts,
                               reconnectAttempts = 0, reconnectTimeout = None\<rparr>]\<rparr>;
                      w3 = connectWebSocket b c w2
                  in (None, w3\<lparr>cleanup := Some c\<rparr>))))"

text \<open>
  A render of the hook with argument \<open>ch\<close>: React runs the effect on the first render
  and whenever \<open>ch\<close> differs from the last run's, after the cleanup of the last run.
\<close>

definition render :: "browser \<Rightarrow> string option \<Rightarrow> world \<Rightarrow> exn option \<times> world" where
  "render b ch w =
     (if deps w = Some ch then (None, w)
      else
        (let w1 = (case cleanup w of None \<Rightarrow> w | Some c \<Rightarrow> cleanup_fn c w)
         in effect b ch (w1\<lparr>deps := Some ch\<rparr>)))"

subsection \<open>Events\<close>

text \<open>
  What can happen to a mounted hook: a render, the browser's events on a socket (with
  the ready-state changes the browser makes before it calls the handler), a timer that
  fires, and the application calling \<^verbatim>\<open>sendMessage\<close>. The browser delivers a message
  event only on an open socket, an open event only on a connecting one, and one close
  event per socket.
\<close>

datatype event =
    Rendered "string option"
  | Opened nat
  | Received nat "exn + json"
  | Errored nat string
  | Closing_started nat
  | Closed_with nat nat
  | Timer_fired nat
  | Send_called payload

definition set_readyState :: "nat \<Rightarrow> ready_state \<Rightarrow> world \<Rightarrow> world" where
  "set_readyState s r w = w\<lparr>sockets := (sockets w)[s := (sockets w ! s)\<lparr>readyState := r\<rparr>]\<rparr>"

fun step :: "browser \<Rightarrow> event \<Rightarrow> world \<Rightarrow> exn option \<times> world" where
  "step b (Rendered ch) w = render b ch w"
| "step b (Opened s) w =
     (None,
      if s < length (sockets w) \<and> readyState (sockets w ! s) = CONNECTING
      then onopen (closure_of (sockets w ! s)) s (set_readyState s OPEN w)
      else w)"
| "step b (Received s parsed) w =
     (None,
      if s < length (sockets w) \<and> readyState (sockets w ! s) = OPEN
      then onmessage parsed w
      else w)"
| "step b (Errored s errorMessage) w =
     (None,
      if s < length (sockets w) \<and> readyState (sockets w ! s) \<noteq> CLOSED
      then onerror errorMessage w
      else w)"
| "step b (Closing_started s) w = (None, close s w)"
| "step b (Closed_with s code) w =
     (None,
      if s < length (sockets w) \<and> readyState (sockets w ! s) \<noteq> CLOSED
      then onclose (closure_of (sockets w ! s)) code (set_readyState s CLOSED w)
      else w)"
| "step b (Timer_fired t) w =
     (None,
      if t < length (timers w) \<and> pending (timers w ! t)
      then reconnect b (callback_of (timers w ! t))
             (w\<lparr>timers := (timers w)[t := (timers w ! t)\<lparr>pending := False\<rparr>]\<rparr>)
      else w)"
| "step b (Send_called content) w = (None, snd (sendMessage content w))"

text \<open>A run stops at the first exception that leaves the effect.\<close>

fun run :: "browser \<Rightarrow> event list \<Rightarrow> world \<Rightarrow> exn option \<times> world" where
  "run b [] w = (None, w)"
| "run b (e # es) w =
     (case step b e w of
        (None, w') \<Rightarrow> run b es w'
      | (Some x, w') \<Rightarrow> (Some x, w'))"

subsection \<open>Observations used in the statements\<close>

text \<open>
  What a property read gives where it does not throw, the identifier of an entry of
  the visible list, and the test \<^verbatim>\<open>data.type === "message" || data.type === "media"\<close>.
\<close>

definition get :: "json \<Rightarrow> string \<Rightarrow> json option" where
  "get d k = (case property d k of Inl e \<Rightarrow> None | Inr v \<Rightarrow> v)"

definition id_of :: "json \<Rightarrow> json option" where
  "id_of d = get d ''id''"

definition is_message :: "json \<Rightarrow> bool" where
  "is_message d =
     (property d ''type'' = Inr (Some (JStr ''message''))
      \<or> property d ''type'' = Inr (Some (JStr ''media'')))"

text \<open>
  The invariant behind the dedup: the primitive identifiers of the visible list are
  pairwise different, and every identifier of the list is in the ledger.
\<close>

definition dedup_inv :: "world \<Rightarrow> bool" where
  "dedup_inv w =
     (distinct (filter primitive (map id_of (messages w)))
      \<and> (\<forall>d \<in> set (messages w). id_of d \<in> set (processedMessageIds w)))"

text \<open>
  The authentication frame for a token, and the invariant behind it: a socket belongs
  to an existing closure; it has sent nothing while connecting and something once open,
  and the first frame it sent is the authentication frame with the token that
  \<^verbatim>\<open>getToken\<close> returns; every timer belongs to an existing closure; every closure
  holds that token.
\<close>

definition auth :: "string \<Rightarrow> frame" where
  "auth t = JSON_text (JObj [(''token'', JStr t)])"

definition framed :: "browser \<Rightarrow> websocket \<Rightarrow> bool" where
  "framed b k =
     ((readyState k = CONNECTING \<longrightarrow> sent k = [])
      \<and> (readyState k = OPEN \<longrightarrow> sent k \<noteq> [])
      \<and> (sent k \<noteq> [] \<longrightarrow> (\<exists>t. getToken b = Inr (Some t) \<and> hd (sent k) = auth t)))"

definition wf :: "browser \<Rightarrow> world \<Rightarrow> bool" where
  "wf b w =
     ((\<forall>k \<in> set (sockets w). closure_of k < length (closures w) \<and> framed b k)
      \<and> (\<forall>t \<in> set (timers w). callback_of t < length (closures w))
      \<and> (\<forall>c \<in> set (closures w). getToken b = Inr (Some (token c))))"

definition abnormal :: "nat \<Rightarrow> bool" where
  "abnormal code = (code \<noteq> 1000 \<and> code \<noteq> 4001 \<and> code \<noteq> 1008)"

text \<open>
  The connection manager as a controller: closure \<open>c\<close> with the sockets and timers
  that belong to it. A socket is live until its close event; a timer is armed until it
  fires or is cleared. The controller is trying when it has exactly one live socket
  (connecting, open or closing) and no armed timer; it is reconnecting when it has no
  live socket and exactly one armed timer, set to the backoff delay of its counter; it
  has failed for good when its counter is at the ceiling and it has neither.
\<close>

definition live :: "nat \<Rightarrow> websocket list \<Rightarrow> nat \<Rightarrow> bool" where
  "live c ss s = (s < length ss \<and> closure_of (ss ! s) = c \<and> readyState (ss ! s) \<noteq> CLOSED)"

definition armed :: "nat \<Rightarrow> timer list \<Rightarrow> nat \<Rightarrow> bool" where
  "armed c ts t = (t < length ts \<and> callback_of (ts ! t) = c \<and> pending (ts ! t))"

definition trying :: "browser \<Rightarrow> nat \<Rightarrow> nat \<Rightarrow> world \<Rightarrow> bool" where
  "trying b c k w =
     (c < length (closures w) \<and> reconnectAttempts (closures w ! c) = k
      \<and> k \<le> maxReconnectAttempts
      \<and> \<not> WebSocket_throws b (wsUrl (channelId (closures w ! c)))
      \<and> (\<exists>s. live c (sockets w) s \<and> (\<forall>s'. live c (sockets w) s' \<longrightarrow> s' = s))
      \<and> (\<forall>t. \<not> armed c (timers w) t))"

definition reconnecting :: "browser \<Rightarrow> nat \<Rightarrow> nat \<Rightarrow> world \<Rightarrow> bool" where
  "reconnecting b c k w =
     (c < length (closures w) \<and> reconnectAttempts (closures w ! c) = k
      \<and> k < maxReconnectAttempts
      \<and> \<not> WebSocket_throws b (wsUrl (channelId (closures w ! c)))
      \<and> (\<forall>s. \<not> live c (sockets w) s)
      \<and> (\<exists>t. armed c (timers w) t \<and> timeout (timers w ! t) = delay k
             \<and> (\<forall>t'. armed c (timers w) t' \<longrightarrow> t' = t)))"

definition failed :: "nat \<Rightarrow> world \<Rightarrow> bool" where
  "failed c w =
     (c < length (closures w) \<and> reconnectAttempts (closures w ! c) = maxReconnectAttempts
      \<and> (\<forall>s. \<not> live c (sockets w) s) \<and> (\<forall>t. \<not> armed c (timers w) t))"

text \<open>
  A run seen from controller \<open>c\<close>: an event closes it when it is the close event of
  one of its live sockets, and fires it when it is one of its armed timers. A run leaves
  the controller undisturbed when no connecting socket of \<open>c\<close> gets its open event,
  the effect does not run again, and every closure of \<open>c\<close> has an abnormal code; every
  other event, on any socket or timer, may occur. \<open>count_closures\<close> counts the
  closures of \<open>c\<close> in a run.
\<close>

fun closes :: "nat \<Rightarrow> world \<Rightarrow> event \<Rightarrow> bool" where
  "closes c w (Closed_with s code) = live c (sockets w) s"
| "closes c w e = False"

fun fires :: "nat \<Rightarrow> world \<Rightarrow> event \<Rightarrow> bool" where
  "fires c w (Timer_fired t) = armed c (timers w) t"
| "fires c w e = False"

fun allowed :: "nat \<Rightarrow> world \<Rightarrow> event \<Rightarrow> bool" where
  "allowed c w (Rendered ch) = (deps w = Some ch)"
| "allowed c w (Opened s) = (\<not> (live c (sockets w) s \<and> readyState (sockets w ! s) = CONNECTING))"
| "allowed c w (Closed_with s code) = (live c (sockets w) s \<longrightarrow> abnormal code)"
| "allowed c w e = True"

fun undisturbed :: "nat \<Rightarrow> browser \<Rightarrow> event list \<Rightarrow> world \<Rightarrow> bool" where
  "undisturbed c b [] w = True"
| "undisturbed c b (e # es) w = (allowed c w e \<and> undisturbed c b es (snd (step b e w)))"

fun count_closures :: "nat \<Rightarrow> browser \<Rightarrow> event list \<Rightarrow> world \<Rightarrow> nat" where
  "count_closures c b [] w = 0"
| "count_closures c b (e # es) w =
     (if closes c w e then 1 else 0) + count_closures c b es (snd (step b e w))"

text \<open>
  After \<open>n\<close> closures the controller is trying for the \<open>n\<close>-th time, or waiting
  for the timer of that attempt, or (after the closure that follows the last attempt) has
  failed. \<open>same_for\<close> says that a step changed nothing that belongs to \<open>c\<close>.
\<close>

definition phase :: "browser \<Rightarrow> nat \<Rightarrow> nat \<Rightarrow> world \<Rightarrow> bool" where
  "phase b c n w =
     ((n \<le> maxReconnectAttempts \<and> trying b c n w)
      \<or> (1 \<le> n \<and> n \<le> maxReconnectAttempts \<and> reconnecting b c (n - 1) w)
      \<or> (n = Suc maxReconnectAttempts \<and> failed c w))"

definition same_for :: "nat \<Rightarrow> world \<Rightarrow> world \<Rightarrow> bool" where
  "same_for c w w' =
     (c < length (closures w') \<and> closures w' ! c = closures w ! c
      \<and> (\<forall>s. live c (sockets w') s = live c (sockets w) s)
      \<and> (\<forall>t. armed c (timers w') t = armed c (timers w) t)
      \<and> (\<forall>t. armed c (timers w) t \<longrightarrow> timeout (timers w' ! t) = timeout (timers w ! t)))"

text \<open>
  The states of a hook bound once, to \<open>ch\<close> with token \<open>tok\<close>, when every
  connection fails before it opens: connecting for the \<open>k\<close>-th time after the bind,
  waiting for the timer after \<open>k + 1\<close> closures, and given up.
\<close>

definition socket_of :: "string \<Rightarrow> ready_state \<Rightarrow> websocket" where
  "socket_of ch r = \<lparr>url = wsUrl ch, closure_of = 0, readyState = r, sent = []\<rparr>"

definition fired :: "nat \<Rightarrow> timer" where
  "fired i = \<lparr>callback_of = 0, timeout = delay i, pending = False\<rparr>"

definition retrying :: "string \<Rightarrow> string \<Rightarrow> nat \<Rightarrow> world" where
  "retrying ch tok k =
     \<lparr>messages = [], isConnected = False, error = None, socketRef = Some k,
       processedMessageIds = [],
       closures = [\<lparr>channelId = ch, token = tok, reconnectAttempts = k,
                    reconnectTimeout = (if k = 0 then None else Some (k - 1))\<rparr>],
       sockets = replicate k (socket_of ch CLOSED) @ [socket_of ch CONNECTING],
       timers = map fired [0..<k],
       cleanup = Some 0, deps = Some (Some ch)\<rparr>"

definition waiting :: "string \<Rightarrow> string \<Rightarrow> nat \<Rightarrow> world" where
  "waiting ch tok k =
     \<lparr>messages = [], isConnected = False, error = None, socketRef = Some k,
       processedMessageIds = [],
       closures = [\<lparr>channelId = ch, token = tok, reconnectAttempts = k,
                    reconnectTimeout = Some k\<rparr>],
       sockets = replicate (Suc k) (socket_of ch CLOSED),
       timers = map fired [0..<k] @ [\<lparr>callback_of = 0, timeout = delay k, pending = True\<rparr>],
       cleanup = Some 0, deps = Some (Some ch)\<rparr>"

definition given_up :: "string \<Rightarrow> string \<Rightarrow> world" where
  "given_up ch tok =
     (retrying ch tok maxReconnectAttempts)
       \<lparr>sockets := replicate (Suc maxReconnectAttempts) (socket_of ch CLOSED),
        error := Some ''Could not reconnect to chat. Please refresh the page.''\<rparr>"

text \<open>A browser with a token in local storage, and the events of a first bind.\<close>

definition a_browser :: browser where
  "a_browser = \<lparr>localStorage_token = Some ''tok'', document_cookie = [],
     decodeURIComponent = (\<lambda>s. Inr s), WebSocket_throws = (\<lambda>u. False)\<rparr>"

definition no_token_browser :: browser where
  "no_token_browser = a_browser\<lparr>localStorage_token := None\<rparr>"

definition bound_and_open :: world where
  "bound_and_open = snd (run a_browser [Rendered (Some ''general''), Opened 0] mount)"

definition m1 :: json where
  "m1 = JObj [(''id'', JStr ''m1''), (''type'', JStr ''message''), (''content'', JStr ''hi'')]"

definition no_id :: json where
  "no_id = JObj [(''type'', JStr ''message''), (''content'', JStr ''hi'')]"

section \<open>Properties\<close>

subsection \<open>Backoff\<close>

lemma delay_mono: "a \<le> b \<Longrightarrow> delay a \<le> delay b"
proof -
  assume "a \<le> b"
  then have "(2::nat) ^ a \<le> 2 ^ b"
    by (simp add: power_increasing)
  then have "(1000::nat) * 2 ^ a \<le> 1000 * 2 ^ b"
    by simp
  then have "min (1000 * 2 ^ a) (30000::nat) \<le> min (1000 * 2 ^ b) 30000"
    by (rule min.mono) simp
  then show ?thesis
    unfolding delay_def .
qed

text \<open>
  C4. With base 1 and ceiling 30 in units of 1000 ms, the delay of attempt \<open>a\<close> is
  \<open>min (base * 2 ^ a) ceiling\<close> units; for the attempts 0 to 5 the delays are
  1, 2, 4, 8, 16 and 30 units; the delay never decreases when the attempt number
  grows and never exceeds the ceiling.
\<close>

theorem C4_backoff_delay:
  "(\<forall>a. delay a = 1000 * min (1 * 2 ^ a) 30)
   \<and> map delay [0, 1, 2, 3, 4, 5] = [1000, 2000, 4000, 8000, 16000, 30000]
   \<and> (\<forall>a b. a \<le> b \<longrightarrow> delay a \<le> delay b)
   \<and> (\<forall>a. delay a \<le> 30 * 1000)"
proof -
  have "\<forall>a. delay a = 1000 * min (1 * 2 ^ a) 30"
    by (simp add: delay_def min_def)
  moreover have "map delay [0, 1, 2, 3, 4, 5] = [1000, 2000, 4000, 8000, 16000, 30000]"
    by (simp add: delay_def)
  moreover have "\<forall>a b. a \<le> b \<longrightarrow> delay a \<le> delay b"
    using delay_mono by blast
  moreover have "\<forall>a. delay a \<le> 30 * 1000"
    by (simp add: delay_def)
  ultimately show ?thesis by blast
qed

theorem C4_backoff_delay_witness:
  "(2::nat) \<le> 3 \<and> delay 2 \<le> delay 3 \<and> delay 2 = 4000 \<and> delay 3 = 8000"
proof -
  have mono: "\<forall>a b. a \<le> b \<longrightarrow> delay a \<le> delay b"
    using C4_backoff_delay by blast
  have "(2::nat) \<le> 3" by simp
  with mono have "delay 2 \<le> delay 3" by blast
  moreover have "delay 2 = 4000" "delay 3 = 8000"
    by (simp_all add: delay_def)
  ultimately show ?thesis by simp
qed

subsection \<open>Evaluating concrete states\<close>

lemmas world_defs = mount_def render_def effect_def getToken_def
   connectWebSocket_def wsUrl_def onopen_def set_readyState_def send_def update_closure_def
   onmessage_def handle_def has_def add_def normalise_def onclose_def onerror_def reconnect_def
   setTimeout_def clearTimeout_def cleanup_fn_def close_def sendMessage_def
   maxReconnectAttempts_def delay_def tokenFromCookie_def js_split_def Let_def

lemma bound_and_open_eq:
  "bound_and_open =
     \<lparr>messages = [], isConnected = True, error = None, socketRef = Some 0,
       processedMessageIds = [],
       closures = [\<lparr>channelId = ''general'', token = ''tok'', reconnectAttempts = 0,
                    reconnectTimeout = None\<rparr>],
       sockets = [\<lparr>url = ''wss://api.loryx.lol/chat/channels/general/ws'', closure_of = 0,
                   readyState = OPEN, sent = [JSON_text (JObj [(''token'', JStr ''tok'')])]\<rparr>],
       timers = [], cleanup = Some 0, deps = Some (Some ''general'')\<rparr>"
  by (simp add: bound_and_open_def a_browser_def world_defs)

subsection \<open>Dedup\<close>

lemma map_of_assign: "k' \<noteq> k \<Longrightarrow> map_of (assign k v ps) k' = map_of ps k'"
  by (induction ps) auto

lemma id_of_set_type [simp]: "id_of (set_prop d ''type'' v) = id_of d"
  by (cases d) (simp_all add: id_of_def get_def map_of_assign)

lemma id_of_normalise [simp]: "id_of (normalise ty mu d) = id_of d"
  by (simp add: normalise_def)

lemma property_Inr_id_of: "property d ''id'' = Inr v \<Longrightarrow> id_of d = v"
  by (simp add: id_of_def get_def)

lemma handle_dedup: "dedup_inv w \<Longrightarrow> handle d w = Inr w' \<Longrightarrow> dedup_inv w'"
  by (auto simp: handle_def dedup_inv_def has_def add_def property_Inr_id_of
      split: sum.splits if_splits)

lemma onmessage_dedup: "dedup_inv w \<Longrightarrow> dedup_inv (onmessage p w)"
  by (auto simp: onmessage_def handle_dedup split: sum.splits)

lemma close_fields [simp]:
  "messages (close s w) = messages w"
  "processedMessageIds (close s w) = processedMessageIds w"
  by (simp_all add: close_def)

lemma send_fields [simp]:
  "messages (send s m w) = messages w"
  "processedMessageIds (send s m w) = processedMessageIds w"
  by (simp_all add: send_def)

lemma clearTimeout_fields [simp]:
  "messages (clearTimeout t w) = messages w"
  "processedMessageIds (clearTimeout t w) = processedMessageIds w"
  by (simp_all add: clearTimeout_def split: option.splits)

lemma effect_dedup: "dedup_inv (snd (effect b ch w))"
  by (simp add: effect_def dedup_inv_def connectWebSocket_def Let_def
      split: option.splits list.splits sum.splits)

lemma step_dedup:
  assumes inv: "dedup_inv w"
  shows "dedup_inv (snd (step b e w))"
proof (cases e)
  case (Rendered ch)
  with inv show ?thesis by (simp add: render_def effect_dedup Let_def)
next
  case (Received s p)
  with inv show ?thesis by (simp add: onmessage_dedup)
qed (use inv in \<open>auto simp: dedup_inv_def onopen_def onerror_def onclose_def reconnect_def
  connectWebSocket_def update_closure_def set_readyState_def setTimeout_def sendMessage_def
  Let_def split: option.splits sum.splits\<close>)

lemma run_dedup: "dedup_inv w \<Longrightarrow> dedup_inv (snd (run b es w))"
proof (induction es arbitrary: w)
  case Nil
  then show ?case by simp
next
  case (Cons e es)
  obtain x w' where st: "step b e w = (x, w')" by (cases "step b e w")
  with Cons.prems step_dedup [of w b e] have inv: "dedup_inv w'" by simp
  show ?case
  proof (cases x)
    case None
    with st Cons.IH [OF inv] show ?thesis by simp
  next
    case (Some a)
    with st inv show ?thesis by simp
  qed
qed

lemma mount_dedup: "dedup_inv mount"
  by (simp add: dedup_inv_def mount_def)

lemma count_le_one:
  assumes "distinct (filter primitive (map id_of ms))" and "primitive k"
  shows "length (filter (\<lambda>d. id_of d = k) ms) \<le> 1"
proof -
  have "length (filter (\<lambda>d. id_of d = k) ms) = length (filter (\<lambda>x. x = k) (map id_of ms))"
    by (induction ms) auto
  also have "filter (\<lambda>x. x = k) (map id_of ms)
      = filter (\<lambda>x. x = k) (filter primitive (map id_of ms))"
    using assms(2) by (induction ms) auto
  also have "length \<dots> = card ({x. x = k} \<inter> set (filter primitive (map id_of ms)))"
    using assms(1) by (rule distinct_length_filter)
  also have "\<dots> \<le> card {k}"
    by (rule card_mono) auto
  finally show ?thesis by simp
qed

lemma run_count_le_one:
  "primitive k \<Longrightarrow> length (filter (\<lambda>d. id_of d = k) (messages (snd (run b es mount)))) \<le> 1"
  using run_dedup [OF mount_dedup, of b es] count_le_one [of "messages (snd (run b es mount))" k]
  by (simp add: dedup_inv_def)

subsection \<open>The message handler\<close>

lemma is_message_handle:
  "is_message d \<Longrightarrow> handle d w =
     Inr (if has (processedMessageIds w) (id_of d) then w
          else w\<lparr>processedMessageIds := processedMessageIds w @ [id_of d],
                 messages := messages w @ [normalise (get d ''type'') (get d ''media_url'') d]\<rparr>)"
  by (cases d) (auto simp: is_message_def handle_def id_of_def get_def add_def)

lemma not_message_handle:
  "\<not> is_message d \<Longrightarrow> onmessage (Inr d) w = w"
  by (auto simp: is_message_def onmessage_def handle_def split: sum.splits)

lemma ledger_grows:
  "\<forall>ch. e \<noteq> Rendered ch \<Longrightarrow> set (processedMessageIds w) \<subseteq> set (processedMessageIds (snd (step b e w)))"
  by (cases e) (auto simp: onopen_def onerror_def onclose_def reconnect_def
  connectWebSocket_def update_closure_def set_readyState_def setTimeout_def sendMessage_def
  onmessage_def handle_def add_def
  Let_def split: option.splits sum.splits)

text \<open>
  C1. In every run of the hook, whatever the events, the visible list holds at most one
  entry with a given primitive identifier (a string, a number, a boolean, \<^verbatim>\<open>null\<close>
  or none at all). A message or media envelope whose identifier is not in the ledger is
  recorded and appended; one whose identifier is in the ledger leaves the state as it
  is; and an identifier in the ledger stays there until the next run of the effect.
  (An object or array identifier is a new reference in every parsed envelope, so two
  envelopes never share one.)
\<close>

theorem C1_dedup:
  "(primitive k \<longrightarrow>
      length (filter (\<lambda>d. id_of d = k) (messages (snd (run b evs mount)))) \<le> 1)
   \<and> (is_message data \<and> \<not> has (processedMessageIds w) (id_of data) \<longrightarrow>
        onmessage (Inr data) w =
          w\<lparr>processedMessageIds := processedMessageIds w @ [id_of data],
            messages := messages w @ [normalise (get data ''type'') (get data ''media_url'') data]\<rparr>)
   \<and> (is_message data \<and> has (processedMessageIds w) (id_of data) \<longrightarrow>
        onmessage (Inr data) w = w)
   \<and> ((\<forall>ch. e \<noteq> Rendered ch) \<and> has (processedMessageIds w) k \<longrightarrow>
        has (processedMessageIds (snd (step b e w))) k)"
proof -
  have "primitive k \<longrightarrow>
      length (filter (\<lambda>d. id_of d = k) (messages (snd (run b evs mount)))) \<le> 1"
    using run_count_le_one by blast
  moreover have "is_message data \<and> \<not> has (processedMessageIds w) (id_of data) \<longrightarrow>
        onmessage (Inr data) w =
          w\<lparr>processedMessageIds := processedMessageIds w @ [id_of data],
            messages := messages w @ [normalise (get data ''type'') (get data ''media_url'') data]\<rparr>"
    by (simp add: onmessage_def is_message_handle)
  moreover have "is_message data \<and> has (processedMessageIds w) (id_of data) \<longrightarrow>
        onmessage (Inr data) w = w"
    by (simp add: onmessage_def is_message_handle)
  moreover have "(\<forall>ch. e \<noteq> Rendered ch) \<and> has (processedMessageIds w) k \<longrightarrow>
        has (processedMessageIds (snd (step b e w))) k"
    using ledger_grows [of e w b] by (auto simp: has_def)
  ultimately show ?thesis by blast
qed

theorem C1_dedup_witness:
  "primitive (Some (JStr ''m1''))
   \<and> length (filter (\<lambda>d. id_of d = Some (JStr ''m1''))
        (messages (snd (run a_browser
           [Rendered (Some ''general''), Opened 0, Received 0 (Inr m1), Received 0 (Inr m1)]
           mount)))) \<le> 1
   \<and> is_message m1 \<and> \<not> has (processedMessageIds bound_and_open) (id_of m1)
   \<and> onmessage (Inr m1) bound_and_open
       = bound_and_open\<lparr>processedMessageIds := [Some (JStr ''m1'')], messages := [m1]\<rparr>
   \<and> has (processedMessageIds (onmessage (Inr m1) bound_and_open)) (id_of m1)
   \<and> onmessage (Inr m1) (onmessage (Inr m1) bound_and_open) = onmessage (Inr m1) bound_and_open
   \<and> has (processedMessageIds
        (snd (step a_browser (Closed_with 0 1006) (onmessage (Inr m1) bound_and_open))))
        (Some (JStr ''m1''))"
proof -
  let ?w = "onmessage (Inr m1) bound_and_open"
  have p: "primitive (Some (JStr ''m1''))" by simp
  have m: "is_message m1" by (simp add: is_message_def m1_def)
  have i: "id_of m1 = Some (JStr ''m1'')" by (simp add: id_of_def get_def m1_def)
  have l: "processedMessageIds bound_and_open = []" "messages bound_and_open = []"
    by (simp_all add: bound_and_open_def a_browser_def world_defs)
  have n: "normalise (get m1 ''type'') (get m1 ''media_url'') m1 = m1"
    by (simp add: normalise_def get_def m1_def)
  have h: "\<not> has (processedMessageIds bound_and_open) (id_of m1)"
    by (simp add: l has_def)
  have first: "?w = bound_and_open\<lparr>processedMessageIds := [Some (JStr ''m1'')], messages := [m1]\<rparr>"
    using C1_dedup [where data = m1 and w = bound_and_open] m h by (simp add: l i n)
  have h': "has (processedMessageIds ?w) (id_of m1)"
    by (simp add: first i has_def)
  have second: "onmessage (Inr m1) ?w = ?w"
    using C1_dedup [where data = m1 and w = ?w] m h' by blast
  have kept: "has (processedMessageIds (snd (step a_browser (Closed_with 0 1006) ?w)))
      (Some (JStr ''m1''))"
    using C1_dedup [where e = "Closed_with 0 1006" and w = ?w and k = "Some (JStr ''m1'')"
        and b = a_browser] h' i
    by simp
  have "length (filter (\<lambda>d. id_of d = Some (JStr ''m1''))
        (messages (snd (run a_browser
           [Rendered (Some ''general''), Opened 0, Received 0 (Inr m1), Received 0 (Inr m1)]
           mount)))) \<le> 1"
    using C1_dedup [where k = "Some (JStr ''m1'')" and b = a_browser] p by blast
  with p m h first h' second kept show ?thesis by blast
qed

subsection \<open>Closures of the transport\<close>

text \<open>
  C3. The close handler schedules a reconnect (one new pending timer, with the backoff
  delay of the current attempt counter) exactly when the code is none of 1000, 4001 and
  1008 and the counter is below \<open>maxReconnectAttempts\<close>; otherwise it schedules nothing.
  On 4001 or 1008 it only clears the connected flag and sets the "not authorized"
  error, whatever the counter.
\<close>

theorem C3_reconnect_decision:
  "((timers (onclose c code w)
       = timers w @ [\<lparr>callback_of = c, timeout = delay (reconnectAttempts (closures w ! c)),
                      pending = True\<rparr>])
     = (code \<noteq> 1000 \<and> code \<noteq> 4001 \<and> code \<noteq> 1008
        \<and> reconnectAttempts (closures w ! c) < maxReconnectAttempts))
   \<and> ((timers (onclose c code w) = timers w)
     = (\<not> (code \<noteq> 1000 \<and> code \<noteq> 4001 \<and> code \<noteq> 1008
        \<and> reconnectAttempts (closures w ! c) < maxReconnectAttempts)))
   \<and> (code = 4001 \<or> code = 1008 \<longrightarrow>
        onclose c code w
          = w\<lparr>isConnected := False, error := Some ''Not authorized to access this channel''\<rparr>)"
  by (auto simp: onclose_def setTimeout_def update_closure_def Let_def)

theorem C3_reconnect_decision_witness:
  "timers (onclose 0 1006 bound_and_open)
     = [\<lparr>callback_of = 0, timeout = 1000, pending = True\<rparr>]
   \<and> timers (onclose 0 1000 bound_and_open) = []
   \<and> onclose 0 1008 bound_and_open
       = bound_and_open\<lparr>isConnected := False,
           error := Some ''Not authorized to access this channel''\<rparr>"
proof -
  have a: "reconnectAttempts (closures bound_and_open ! 0) = 0" "timers bound_and_open = []"
    by (simp_all add: bound_and_open_eq)
  have "timers (onclose 0 1006 bound_and_open)
     = [\<lparr>callback_of = 0, timeout = 1000, pending = True\<rparr>]"
    using C3_reconnect_decision [of 0 1006 bound_and_open] a
    by (simp add: maxReconnectAttempts_def delay_def)
  moreover have "timers (onclose 0 1000 bound_and_open) = []"
    using C3_reconnect_decision [of 0 1000 bound_and_open] a by simp
  moreover have "onclose 0 1008 bound_and_open
       = bound_and_open\<lparr>isConnected := False,
           error := Some ''Not authorized to access this channel''\<rparr>"
    using C3_reconnect_decision [of 0 1008 bound_and_open] by simp
  ultimately show ?thesis by blast
qed

subsection \<open>Sending\<close>

text \<open>
  C5. Without a socket, or with one whose ready-state is not OPEN, \<^verbatim>\<open>sendMessage\<close>
  returns false and changes nothing but the error, which becomes "WebSocket not
  connected". On an open socket, when \<^verbatim>\<open>JSON.stringify\<close> does not throw, it returns
  true and appends exactly one frame to that socket: the text of \<open>{content: s}\<close> for a
  string \<open>s\<close>, the text of the object itself otherwise.
\<close>

theorem C5_send:
  "(socketRef w = None \<or> (\<exists>s. socketRef w = Some s \<and> readyState (sockets w ! s) \<noteq> OPEN) \<longrightarrow>
      sendMessage content w = (False, w\<lparr>error := Some ''WebSocket not connected''\<rparr>))
   \<and> (socketRef w = Some s \<and> s < length (sockets w) \<and> readyState (sockets w ! s) = OPEN
        \<and> messageToSend content = Inr m \<longrightarrow>
      sendMessage content w
        = (True, w\<lparr>sockets := (sockets w)[s := (sockets w ! s)\<lparr>sent := sent (sockets w ! s) @ [m]\<rparr>]\<rparr>))
   \<and> messageToSend (Str text) = Inr (JSON_text (JObj [(''content'', JStr text)]))
   \<and> messageToSend (Obj v) = Inr (JSON_text v)"
  by (auto simp: sendMessage_def send_def)

theorem C5_send_witness:
  "sendMessage (Str ''hi'') mount = (False, mount\<lparr>error := Some ''WebSocket not connected''\<rparr>)
   \<and> sendMessage (Str ''hi'') (close 0 bound_and_open)
       = (False, (close 0 bound_and_open)\<lparr>error := Some ''WebSocket not connected''\<rparr>)
   \<and> fst (sendMessage (Str ''hi'') bound_and_open)
   \<and> sent (sockets (snd (sendMessage (Str ''hi'') bound_and_open)) ! 0)
       = [JSON_text (JObj [(''token'', JStr ''tok'')]),
          JSON_text (JObj [(''content'', JStr ''hi'')])]"
proof -
  have "sendMessage (Str ''hi'') mount = (False, mount\<lparr>error := Some ''WebSocket not connected''\<rparr>)"
    using C5_send [where w = mount and content = "Str ''hi''"] by (simp add: mount_def)
  moreover have "sendMessage (Str ''hi'') (close 0 bound_and_open)
       = (False, (close 0 bound_and_open)\<lparr>error := Some ''WebSocket not connected''\<rparr>)"
    using C5_send [where w = "close 0 bound_and_open" and content = "Str ''hi''"]
    by (simp add: bound_and_open_eq close_def)
  moreover have "sendMessage (Str ''hi'') bound_and_open
      = (True, bound_and_open\<lparr>sockets := (sockets bound_and_open)
           [0 := (sockets bound_and_open ! 0)\<lparr>sent := sent (sockets bound_and_open ! 0)
              @ [JSON_text (JObj [(''content'', JStr ''hi'')])]\<rparr>]\<rparr>)"
    using C5_send [where w = bound_and_open and content = "Str ''hi''" and s = 0
        and m = "JSON_text (JObj [(''content'', JStr ''hi'')])"]
    by (simp add: bound_and_open_eq)
  ultimately show ?thesis by (simp add: bound_and_open_eq)
qed

subsection \<open>Envelopes without an identifier\<close>

text \<open>
  C6 as stated fails: a message envelope without an identifier is recorded (under the
  key \<^verbatim>\<open>undefined\<close>) and appended to the visible list.
\<close>

theorem C6_counterexample:
  "id_of no_id = None
   \<and> messages (snd (run a_browser
        [Rendered (Some ''general''), Opened 0, Received 0 (Inr no_id)] mount)) = [no_id]
   \<and> processedMessageIds (snd (run a_browser
        [Rendered (Some ''general''), Opened 0, Received 0 (Inr no_id)] mount)) = [None]"
  by (simp add: id_of_def get_def no_id_def a_browser_def world_defs)

text \<open>
  C6, amended. An envelope without an identifier whose kind is neither message nor
  media changes nothing. One of kind message or media is handled like any other
  envelope, with the missing identifier as its ledger key: it is dropped when that key
  is in the ledger, and recorded and appended otherwise.
\<close>

theorem C6_no_identifier:
  "id_of data = None \<Longrightarrow>
     (\<not> is_message data \<longrightarrow> onmessage (Inr data) w = w)
     \<and> (is_message data \<and> has (processedMessageIds w) None \<longrightarrow> onmessage (Inr data) w = w)
     \<and> (is_message data \<and> \<not> has (processedMessageIds w) None \<longrightarrow>
          onmessage (Inr data) w =
            w\<lparr>processedMessageIds := processedMessageIds w @ [None],
              messages := messages w @ [normalise (get data ''type'') (get data ''media_url'') data]\<rparr>)"
  using not_message_handle [of data w] is_message_handle [of data w]
  by (auto simp: onmessage_def)

theorem C6_no_identifier_witness:
  "id_of no_id = None \<and> is_message no_id \<and> \<not> has (processedMessageIds bound_and_open) None
   \<and> onmessage (Inr no_id) bound_and_open
       = bound_and_open\<lparr>processedMessageIds := [None], messages := [no_id]\<rparr>
   \<and> id_of (JObj [(''type'', JStr ''join''), (''message'', JStr ''x joined'')]) = None
   \<and> \<not> is_message (JObj [(''type'', JStr ''join''), (''message'', JStr ''x joined'')])
   \<and> onmessage (Inr (JObj [(''type'', JStr ''join''), (''message'', JStr ''x joined'')]))
        bound_and_open = bound_and_open"
proof -
  let ?j = "JObj [(''type'', JStr ''join''), (''message'', JStr ''x joined'')]"
  have a: "id_of no_id = None" "is_message no_id"
    "normalise (get no_id ''type'') (get no_id ''media_url'') no_id = no_id"
    by (simp_all add: id_of_def get_def is_message_def no_id_def normalise_def)
  have b: "\<not> has (processedMessageIds bound_and_open) None"
    by (simp add: bound_and_open_eq has_def)
  have c: "id_of ?j = None" "\<not> is_message ?j"
    by (simp_all add: id_of_def get_def is_message_def)
  have "onmessage (Inr no_id) bound_and_open
       = bound_and_open\<lparr>processedMessageIds := [None], messages := [no_id]\<rparr>"
    using C6_no_identifier [OF a(1), of bound_and_open] a b by (simp add: bound_and_open_eq)
  moreover have "onmessage (Inr ?j) bound_and_open = bound_and_open"
    using C6_no_identifier [OF c(1), of bound_and_open] c by blast
  ultimately show ?thesis using a b c by blast
qed

subsection \<open>Binding a channel\<close>

lemma effect_no_channel:
  "ch = None \<or> ch = Some [] \<Longrightarrow>
      effect b ch w
        = (None, w\<lparr>messages := [], processedMessageIds := [], cleanup := None,
                   isConnected := False\<rparr>)"
  by (auto simp: effect_def)

lemma effect_undefined:
  "effect b (Some ''undefined'') w
        = (None, w\<lparr>messages := [], processedMessageIds := [], cleanup := None,
                   error := Some ''Invalid channel ID'', isConnected := False\<rparr>)"
  by (simp add: effect_def)

lemma effect_no_token:
  assumes "ch = Some (x # xs)" "x # xs \<noteq> ''undefined''"
    "getToken b = Inr None \<or> getToken b = Inr (Some [])"
  shows "effect b ch w
     = (None, w\<lparr>messages := [], processedMessageIds := [], cleanup := None,
                error := Some ''Not authenticated''\<rparr>)"
  using assms by (auto simp: effect_def)

lemma getToken_no_token: "getToken no_token_browser = Inr None"
  by (simp add: getToken_def no_token_browser_def a_browser_def tokenFromCookie_def js_split_def)

lemma closures_unchanged [simp]:
  "closures (close s w) = closures w"
  "closures (clearTimeout t w) = closures w"
  "closures (cleanup_fn c w) = closures w"
  "closures (connectWebSocket b c w) = closures w"
  by (simp_all add: close_def clearTimeout_def cleanup_fn_def connectWebSocket_def Let_def
      split: option.splits)

lemma effect_resets:
  "messages (snd (effect b ch w)) = [] \<and> processedMessageIds (snd (effect b ch w)) = []"
  by (simp add: effect_def connectWebSocket_def Let_def split: option.splits list.splits sum.splits)

lemma effect_Some:
  assumes "c \<noteq> []"
  shows "effect b (Some c) w =
     (let w0 = w\<lparr>messages := [], processedMessageIds := [], cleanup := None\<rparr> in
      if c = ''undefined'' then
        (None, w0\<lparr>error := Some ''Invalid channel ID'', isConnected := False\<rparr>)
      else
        (case getToken b of
           Inl e \<Rightarrow> (Some e, w0)
         | Inr None \<Rightarrow> (None, w0\<lparr>error := Some ''Not authenticated''\<rparr>)
         | Inr (Some []) \<Rightarrow> (None, w0\<lparr>error := Some ''Not authenticated''\<rparr>)
         | Inr (Some (t # ts)) \<Rightarrow>
             (let w1 = (case socketRef w0 of None \<Rightarrow> w0 | Some s \<Rightarrow> close s w0);
                  k = length (closures w1);
                  w2 = w1\<lparr>closures := closures w1 @
                         [\<lparr>channelId = c, token = t # ts,
                           reconnectAttempts = 0, reconnectTimeout = None\<rparr>]\<rparr>;
                  w3 = connectWebSocket b k w2
              in (None, w3\<lparr>cleanup := Some k\<rparr>))))"
proof (cases c)
  case Nil
  with assms show ?thesis by simp
next
  case (Cons x xs)
  show ?thesis unfolding Cons by (simp add: effect_def)
qed

lemma effect_creates:
  assumes "c \<noteq> []" "c \<noteq> ''undefined''" "getToken b = Inr (Some (t # ts))"
  shows "cleanup (snd (effect b (Some c) w)) = Some (length (closures w))
    \<and> closures (snd (effect b (Some c) w)) = closures w @
           [\<lparr>channelId = c, token = t # ts, reconnectAttempts = 0, reconnectTimeout = None\<rparr>]"
  using assms by (simp add: effect_Some Let_def split: option.splits)

lemma effect_cleanup:
  assumes "cleanup (snd (effect b ch w)) = Some k"
  shows "k = length (closures w) \<and> length (closures (snd (effect b ch w))) = Suc k
     \<and> reconnectAttempts (closures (snd (effect b ch w)) ! k) = 0"
proof (cases ch)
  case None
  with assms show ?thesis by (simp add: effect_def)
next
  case (Some c)
  show ?thesis
  proof (cases "c = []")
    case True
    with Some assms show ?thesis by (simp add: effect_def)
  next
    case False
    with Some assms show ?thesis
      by (auto simp: effect_Some Let_def split: if_splits sum.splits option.splits list.splits)
  qed
qed

text \<open>
  C7 as stated fails: a bind without a channel identifier (\<^verbatim>\<open>null\<close> or the empty
  string) reports no error; and a bind without a token does not touch the connected
  flag, which stays true when the previous channel was connected.
\<close>

theorem C7_counterexample:
  "error (snd (effect a_browser None mount)) = None
   \<and> error (snd (effect a_browser (Some []) mount)) = None
   \<and> getToken no_token_browser = Inr None
   \<and> isConnected (snd (render no_token_browser (Some ''other'') bound_and_open))"
proof -
  have "error (snd (effect a_browser None mount)) = None"
    "error (snd (effect a_browser (Some []) mount)) = None"
    by (simp_all add: effect_def mount_def)
  moreover have "render no_token_browser (Some ''other'') bound_and_open
      = effect no_token_browser (Some ''other'') ((cleanup_fn 0 bound_and_open)\<lparr>deps := Some (Some ''other'')\<rparr>)"
    by (simp add: render_def bound_and_open_eq)
  moreover have "isConnected (cleanup_fn 0 bound_and_open)"
    by (simp add: bound_and_open_eq cleanup_fn_def close_def clearTimeout_def)
  ultimately show ?thesis
    by (simp add: effect_Some getToken_no_token)
qed

text \<open>
  C7, amended. A bind without a channel identifier empties the list and the ledger and
  clears the connected flag, without an error message. A bind to the identifier
  \<^verbatim>\<open>"undefined"\<close> does the same and reports "Invalid channel ID". A bind to any
  other identifier when \<^verbatim>\<open>getToken\<close> finds no token reports "Not authenticated". In
  the three cases no socket is created, closed or written to, no timer is set, and the
  effect returns no cleanup.
\<close>

theorem C7_bind_validation:
  "(ch = None \<or> ch = Some [] \<longrightarrow>
      effect b ch w
        = (None, w\<lparr>messages := [], processedMessageIds := [], cleanup := None,
                   isConnected := False\<rparr>))
   \<and> effect b (Some ''undefined'') w
        = (None, w\<lparr>messages := [], processedMessageIds := [], cleanup := None,
                   error := Some ''Invalid channel ID'', isConnected := False\<rparr>)
   \<and> (c \<noteq> [] \<and> c \<noteq> ''undefined''
        \<and> (getToken b = Inr None \<or> getToken b = Inr (Some [])) \<longrightarrow>
      fst (effect b (Some c) w) = None
      \<and> error (snd (effect b (Some c) w)) = Some ''Not authenticated''
      \<and> sockets (snd (effect b (Some c) w)) = sockets w
      \<and> closures (snd (effect b (Some c) w)) = closures w
      \<and> timers (snd (effect b (Some c) w)) = timers w
      \<and> socketRef (snd (effect b (Some c) w)) = socketRef w
      \<and> cleanup (snd (effect b (Some c) w)) = None)"
proof -
  have "c \<noteq> [] \<and> c \<noteq> ''undefined''
        \<and> (getToken b = Inr None \<or> getToken b = Inr (Some [])) \<longrightarrow>
      fst (effect b (Some c) w) = None
      \<and> error (snd (effect b (Some c) w)) = Some ''Not authenticated''
      \<and> sockets (snd (effect b (Some c) w)) = sockets w
      \<and> closures (snd (effect b (Some c) w)) = closures w
      \<and> timers (snd (effect b (Some c) w)) = timers w
      \<and> socketRef (snd (effect b (Some c) w)) = socketRef w
      \<and> cleanup (snd (effect b (Some c) w)) = None"
    by (auto simp: effect_Some)
  then show ?thesis
    using effect_no_channel [of ch b w] effect_undefined [of b w] by blast
qed

theorem C7_bind_validation_witness:
  "effect a_browser None bound_and_open
     = (None, bound_and_open\<lparr>messages := [], processedMessageIds := [], cleanup := None,
                isConnected := False\<rparr>)
   \<and> ''other'' \<noteq> [] \<and> ''other'' \<noteq> ''undefined''
   \<and> getToken no_token_browser = Inr None
   \<and> error (snd (effect no_token_browser (Some ''other'') bound_and_open))
       = Some ''Not authenticated''
   \<and> sockets (snd (effect no_token_browser (Some ''other'') bound_and_open))
       = sockets bound_and_open"
proof -
  have "effect a_browser None bound_and_open
     = (None, bound_and_open\<lparr>messages := [], processedMessageIds := [], cleanup := None,
                isConnected := False\<rparr>)"
    using C7_bind_validation [where ch = None and b = a_browser and w = bound_and_open]
    by simp
  moreover have "error (snd (effect no_token_browser (Some ''other'') bound_and_open))
       = Some ''Not authenticated''
     \<and> sockets (snd (effect no_token_browser (Some ''other'') bound_and_open))
       = sockets bound_and_open"
    using C7_bind_validation [where c = "''other''" and b = no_token_browser
        and w = bound_and_open] getToken_no_token
    by simp
  ultimately show ?thesis using getToken_no_token by simp
qed

text \<open>
  C8. When the hook is rendered with a channel identifier different from the last
  one, the effect runs; when it is over the visible list and the ledger are empty, and
  the closure it has created (the one its cleanup belongs to) is new and has
  \<open>reconnectAttempts = 0\<close>. It creates one whenever the identifier is non-empty and
  not \<^verbatim>\<open>"undefined"\<close> and a token is found.
\<close>

theorem C8_rebind_resets:
  "deps w \<noteq> Some ch \<Longrightarrow>
     messages (snd (render b ch w)) = []
     \<and> processedMessageIds (snd (render b ch w)) = []
     \<and> (\<forall>k. cleanup (snd (render b ch w)) = Some k \<longrightarrow>
          k = length (closures w) \<and> length (closures (snd (render b ch w))) = Suc k
          \<and> reconnectAttempts (closures (snd (render b ch w)) ! k) = 0)
     \<and> (\<forall>c t ts. ch = Some c \<and> c \<noteq> [] \<and> c \<noteq> ''undefined''
            \<and> getToken b = Inr (Some (t # ts)) \<longrightarrow>
          cleanup (snd (render b ch w)) = Some (length (closures w)))"
proof -
  assume d: "deps w \<noteq> Some ch"
  define w1 where
    "w1 = (case cleanup w of None \<Rightarrow> w | Some c \<Rightarrow> cleanup_fn c w)\<lparr>deps := Some ch\<rparr>"
  have r: "render b ch w = effect b ch w1"
    using d by (simp add: render_def w1_def Let_def)
  have c: "closures w1 = closures w"
    by (simp add: w1_def split: option.splits)
  have "\<forall>k. cleanup (snd (effect b ch w1)) = Some k \<longrightarrow>
          k = length (closures w) \<and> length (closures (snd (effect b ch w1))) = Suc k
          \<and> reconnectAttempts (closures (snd (effect b ch w1)) ! k) = 0"
    using effect_cleanup [of b ch w1] by (simp add: c)
  moreover have "\<forall>c t ts. ch = Some c \<and> c \<noteq> [] \<and> c \<noteq> ''undefined''
            \<and> getToken b = Inr (Some (t # ts)) \<longrightarrow>
          cleanup (snd (effect b ch w1)) = Some (length (closures w))"
    using effect_creates [of _ b _ _ w1] by (simp add: c)
  ultimately show ?thesis
    unfolding r using effect_resets [of b ch w1] by blast
qed

theorem C8_rebind_resets_witness:
  "deps (onmessage (Inr m1) bound_and_open) \<noteq> Some (Some ''other'')
   \<and> messages (onmessage (Inr m1) bound_and_open) = [m1]
   \<and> messages (snd (render a_browser (Some ''other'') (onmessage (Inr m1) bound_and_open))) = []
   \<and> processedMessageIds
        (snd (render a_browser (Some ''other'') (onmessage (Inr m1) bound_and_open))) = []
   \<and> cleanup (snd (render a_browser (Some ''other'') (onmessage (Inr m1) bound_and_open)))
       = Some 1
   \<and> reconnectAttempts
        (closures (snd (render a_browser (Some ''other'') (onmessage (Inr m1) bound_and_open)))
          ! 1) = 0"
proof -
  let ?w = "onmessage (Inr m1) bound_and_open"
  have w: "?w = bound_and_open\<lparr>processedMessageIds := [Some (JStr ''m1'')], messages := [m1]\<rparr>"
    by (simp add: bound_and_open_eq m1_def onmessage_def handle_def has_def add_def normalise_def)
  have d: "deps ?w \<noteq> Some (Some ''other'')"
    unfolding w by (simp add: bound_and_open_eq)
  have t: "getToken a_browser = Inr (Some (CHR ''t'' # ''ok''))"
    by (simp add: getToken_def a_browser_def)
  have l: "length (closures ?w) = 1"
    unfolding w by (simp add: bound_and_open_eq)
  let ?r = "snd (render a_browser (Some ''other'') ?w)"
  note c8 = C8_rebind_resets [OF d, of a_browser]
  from c8 have A: "messages ?r = []" and B: "processedMessageIds ?r = []"
    by blast+
  from c8 have D: "''other'' \<noteq> [] \<and> ''other'' \<noteq> ''undefined''
      \<and> getToken a_browser = Inr (Some (CHR ''t'' # ''ok'')) \<longrightarrow>
      cleanup ?r = Some (length (closures ?w))"
    by blast
  with t l have cl: "cleanup ?r = Some 1"
    by simp
  from c8 have "cleanup ?r = Some 1 \<longrightarrow> reconnectAttempts (closures ?r ! 1) = 0"
    by blast
  with cl have E: "reconnectAttempts (closures ?r ! 1) = 0"
    by blast
  have m: "messages ?w = [m1]"
    unfolding w by simp
  from d m A B cl E show ?thesis
    by blast
qed

text \<open>
  C10. A message or media envelope without an identifier, arriving when \<^verbatim>\<open>undefined\<close>
  is not in the ledger, is appended and puts \<^verbatim>\<open>undefined\<close> in the ledger; it stays
  there through every event but a run of the effect; while it is there every message or
  media envelope without an identifier leaves the state as it is. In every run the
  visible list holds at most one entry without an identifier.
\<close>

theorem C10_one_entry_without_identifier:
  "(is_message d \<and> id_of d = None \<and> \<not> has (processedMessageIds w) None \<longrightarrow>
      has (processedMessageIds (onmessage (Inr d) w)) None
      \<and> messages (onmessage (Inr d) w)
          = messages w @ [normalise (get d ''type'') (get d ''media_url'') d])
   \<and> (is_message d \<and> id_of d = None \<and> has (processedMessageIds w) None \<longrightarrow>
        onmessage (Inr d) w = w)
   \<and> ((\<forall>ch. e \<noteq> Rendered ch) \<and> has (processedMessageIds w) None \<longrightarrow>
        has (processedMessageIds (snd (step b e w))) None)
   \<and> length (filter (\<lambda>d. id_of d = None) (messages (snd (run b evs mount)))) \<le> 1"
proof -
  have "is_message d \<and> id_of d = None \<and> \<not> has (processedMessageIds w) None \<longrightarrow>
      has (processedMessageIds (onmessage (Inr d) w)) None
      \<and> messages (onmessage (Inr d) w)
          = messages w @ [normalise (get d ''type'') (get d ''media_url'') d]"
    by (simp add: onmessage_def is_message_handle has_def)
  moreover have "is_message d \<and> id_of d = None \<and> has (processedMessageIds w) None \<longrightarrow>
        onmessage (Inr d) w = w"
    by (simp add: onmessage_def is_message_handle)
  moreover have "(\<forall>ch. e \<noteq> Rendered ch) \<and> has (processedMessageIds w) None \<longrightarrow>
        has (processedMessageIds (snd (step b e w))) None"
    using ledger_grows [of e w b] by (auto simp: has_def)
  moreover have "length (filter (\<lambda>d. id_of d = None) (messages (snd (run b evs mount)))) \<le> 1"
    using run_count_le_one [of None b evs] by simp
  ultimately show ?thesis by blast
qed

theorem C10_one_entry_without_identifier_witness:
  "is_message no_id \<and> id_of no_id = None \<and> \<not> has (processedMessageIds bound_and_open) None
   \<and> has (processedMessageIds (onmessage (Inr no_id) bound_and_open)) None
   \<and> messages (onmessage (Inr no_id) bound_and_open) = [no_id]
   \<and> onmessage (Inr no_id) (onmessage (Inr no_id) bound_and_open)
       = onmessage (Inr no_id) bound_and_open
   \<and> has (processedMessageIds
        (snd (step a_browser (Send_called (Str ''hi'')) (onmessage (Inr no_id) bound_and_open))))
        None"
proof -
  let ?w = "onmessage (Inr no_id) bound_and_open"
  have a: "is_message no_id" "id_of no_id = None"
    "normalise (get no_id ''type'') (get no_id ''media_url'') no_id = no_id"
    by (simp_all add: id_of_def get_def is_message_def no_id_def normalise_def)
  have b: "\<not> has (processedMessageIds bound_and_open) None" "messages bound_and_open = []"
    by (simp_all add: bound_and_open_eq has_def)
  have first: "has (processedMessageIds ?w) None \<and> messages ?w = [no_id]"
    using C10_one_entry_without_identifier [where d = no_id and w = bound_and_open] a b
    by simp
  have second: "onmessage (Inr no_id) ?w = ?w"
    using C10_one_entry_without_identifier [where d = no_id and w = ?w] a first by blast
  have third: "has (processedMessageIds
        (snd (step a_browser (Send_called (Str ''hi'')) ?w))) None"
    using C10_one_entry_without_identifier [where e = "Send_called (Str ''hi'')" and w = ?w
        and b = a_browser] first
    by simp
  show ?thesis using a b first second third by blast
qed

subsection \<open>Opening a socket\<close>

lemma ball_list_update:
  assumes "\<forall>x \<in> set xs. P x" and "i < length xs \<Longrightarrow> P y"
  shows "\<forall>x \<in> set (xs[i := y]). P x"
proof (cases "i < length xs")
  case True
  with assms set_update_subset_insert [of xs i y] show ?thesis by auto
next
  case False
  with assms show ?thesis by (simp add: list_update_beyond)
qed

lemma wf_sockets_update:
  assumes "wf b w"
    and "s < length (sockets w) \<Longrightarrow> closure_of k = closure_of (sockets w ! s) \<and> framed b k"
  shows "wf b (w\<lparr>sockets := (sockets w)[s := k]\<rparr>)"
proof -
  have "\<forall>x \<in> set ((sockets w)[s := k]). closure_of x < length (closures w) \<and> framed b x"
  proof (rule ball_list_update)
    show "\<forall>x\<in>set (sockets w). closure_of x < length (closures w) \<and> framed b x"
      using assms(1) by (simp add: wf_def)
    assume "s < length (sockets w)"
    with assms show "closure_of k < length (closures w) \<and> framed b k"
      by (simp add: wf_def)
  qed
  with assms(1) show ?thesis by (simp add: wf_def)
qed

lemma wf_framed: "wf b w \<Longrightarrow> s < length (sockets w) \<Longrightarrow> framed b (sockets w ! s)"
  by (simp add: wf_def)

lemma wf_closure_update:
  assumes "wf b w" and "\<And>k. token (f k) = token k"
  shows "wf b (update_closure c f w)"
proof -
  have "\<forall>x \<in> set ((closures w)[c := f (closures w ! c)]). getToken b = Inr (Some (token x))"
  proof (rule ball_list_update)
    show "\<forall>x\<in>set (closures w). getToken b = Inr (Some (token x))"
      using assms(1) by (simp add: wf_def)
    assume "c < length (closures w)"
    with assms show "getToken b = Inr (Some (token (f (closures w ! c))))"
      by (simp add: wf_def)
  qed
  with assms(1) show ?thesis by (simp add: wf_def update_closure_def)
qed

lemma wf_fields:
  "wf b w \<Longrightarrow> wf b (w\<lparr>isConnected := x\<rparr>)"
  "wf b w \<Longrightarrow> wf b (w\<lparr>error := e\<rparr>)"
  "wf b w \<Longrightarrow> wf b (w\<lparr>messages := ms\<rparr>)"
  "wf b w \<Longrightarrow> wf b (w\<lparr>processedMessageIds := l\<rparr>)"
  "wf b w \<Longrightarrow> wf b (w\<lparr>cleanup := cl\<rparr>)"
  "wf b w \<Longrightarrow> wf b (w\<lparr>deps := d\<rparr>)"
  "wf b w \<Longrightarrow> wf b (w\<lparr>socketRef := r\<rparr>)"
  by (simp_all add: wf_def)

lemma wf_close: "wf b w \<Longrightarrow> wf b (close s w)"
  unfolding close_def
  by (auto intro!: wf_sockets_update dest: wf_framed [of b w s] simp: framed_def)

lemma wf_send: "wf b w \<Longrightarrow> wf b (send s m w)"
  unfolding send_def
  by (auto intro!: wf_sockets_update dest: wf_framed [of b w s] simp: framed_def)

lemma wf_closed: "wf b w \<Longrightarrow> wf b (set_readyState s CLOSED w)"
  unfolding set_readyState_def
  by (auto intro!: wf_sockets_update dest: wf_framed [of b w s] simp: framed_def)

lemma wf_clearTimeout: "wf b w \<Longrightarrow> wf b (clearTimeout t w)"
proof (cases t)
  case None
  then show "wf b w \<Longrightarrow> ?thesis" by (simp add: clearTimeout_def)
next
  case (Some i)
  assume w: "wf b w"
  have "\<forall>x \<in> set ((timers w)[i := (timers w ! i)\<lparr>pending := False\<rparr>]). callback_of x < length (closures w)"
    by (rule ball_list_update) (use w in \<open>simp_all add: wf_def\<close>)
  with w Some show ?thesis by (simp add: clearTimeout_def wf_def)
qed

lemma wf_onmessage: "wf b w \<Longrightarrow> wf b (onmessage p w)"
  by (auto simp: onmessage_def handle_def wf_def split: sum.splits)

lemma wf_onerror: "wf b w \<Longrightarrow> wf b (onerror m w)"
  by (simp add: onerror_def wf_def)

lemma opened_eq:
  assumes "s < length (sockets w)"
  shows "onopen c s (set_readyState s OPEN w)
    = update_closure c (\<lambda>k. k\<lparr>reconnectAttempts := 0\<rparr>)
        (w\<lparr>sockets := (sockets w)[s := (sockets w ! s)
               \<lparr>readyState := OPEN, sent := sent (sockets w ! s) @ [auth (token (closures w ! c))]\<rparr>],
           isConnected := True, error := None\<rparr>)"
  using assms by (simp add: onopen_def set_readyState_def send_def auth_def Let_def)

lemma wf_opened:
  assumes w: "wf b w" and s: "s < length (sockets w)"
    and r: "readyState (sockets w ! s) = CONNECTING" and c: "c = closure_of (sockets w ! s)"
  shows "wf b (onopen c s (set_readyState s OPEN w))"
proof -
  have "c < length (closures w)"
    using w s c by (simp add: wf_def)
  then have t: "getToken b = Inr (Some (token (closures w ! c)))"
    using w by (simp add: wf_def)
  have e: "sent (sockets w ! s) = []"
    using wf_framed [OF w s] r by (simp add: framed_def)
  have "wf b (w\<lparr>sockets := (sockets w)[s := (sockets w ! s)
               \<lparr>readyState := OPEN, sent := sent (sockets w ! s) @ [auth (token (closures w ! c))]\<rparr>]\<rparr>)"
    by (rule wf_sockets_update [OF w]) (use t e in \<open>auto simp: framed_def\<close>)
  then have "wf b (w\<lparr>sockets := (sockets w)[s := (sockets w ! s)
               \<lparr>readyState := OPEN, sent := sent (sockets w ! s) @ [auth (token (closures w ! c))]\<rparr>],
           isConnected := True, error := None\<rparr>)"
    by (simp add: wf_def)
  then show ?thesis
    unfolding opened_eq [OF s] by (intro wf_closure_update) simp_all
qed

lemma wf_setTimeout:
  "wf b w \<Longrightarrow> c < length (closures w) \<Longrightarrow> wf b (snd (setTimeout c ms w))"
  by (simp add: setTimeout_def wf_def)

lemma wf_onclose:
  assumes "wf b w" and "c < length (closures w)"
  shows "wf b (onclose c code w)"
proof -
  have 1: "wf b (w\<lparr>isConnected := False\<rparr>)"
    using assms(1) by (rule wf_fields)
  have 2: "c < length (closures (w\<lparr>isConnected := False\<rparr>))"
    using assms(2) by simp
  have "wf b (update_closure c (\<lambda>k. k\<lparr>reconnectTimeout := Some t\<rparr>)
          (snd (setTimeout c ms (w\<lparr>isConnected := False\<rparr>))))" for t ms
    by (intro wf_closure_update wf_setTimeout 1 2) simp
  with 1 show ?thesis
    by (simp add: onclose_def Let_def wf_fields case_prod_beta)
qed

lemma wf_connectWebSocket:
  "wf b w \<Longrightarrow> c < length (closures w) \<Longrightarrow> wf b (connectWebSocket b c w)"
  by (simp add: connectWebSocket_def wf_def framed_def)

lemma wf_reconnect:
  assumes "wf b w" and "c < length (closures w)"
  shows "wf b (reconnect b c w)"
proof -
  have "wf b (update_closure c (\<lambda>k. k\<lparr>reconnectAttempts := reconnectAttempts k + 1\<rparr>) w)"
    by (intro wf_closure_update assms(1)) simp
  moreover have "c < length (closures
      (update_closure c (\<lambda>k. k\<lparr>reconnectAttempts := reconnectAttempts k + 1\<rparr>) w))"
    using assms(2) by (simp add: update_closure_def)
  ultimately show ?thesis
    unfolding reconnect_def by (rule wf_connectWebSocket)
qed

lemma wf_sendMessage: "wf b w \<Longrightarrow> wf b (snd (sendMessage p w))"
  by (simp add: sendMessage_def wf_fields wf_send split: option.splits sum.splits)

lemma wf_cleanup_fn: "wf b w \<Longrightarrow> wf b (cleanup_fn c w)"
  by (simp add: cleanup_fn_def Let_def wf_clearTimeout wf_close split: option.splits)

lemma wf_new_closure:
  assumes "wf b w" and "getToken b = Inr (Some t)"
  shows "wf b (w\<lparr>closures := closures w @
           [\<lparr>channelId = c, token = t, reconnectAttempts = 0, reconnectTimeout = None\<rparr>]\<rparr>)"
  using assms by (auto simp: wf_def)

lemma wf_effect:
  assumes w: "wf b w"
  shows "wf b (snd (effect b ch w))"
proof -
  let ?w0 = "w\<lparr>messages := [], processedMessageIds := [], cleanup := None\<rparr>"
  have w0: "wf b ?w0"
    using w by (simp add: wf_def)
  show ?thesis
  proof (cases ch)
    case None
    with w0 show ?thesis by (simp add: effect_def wf_fields)
  next
    case (Some c)
    show ?thesis
    proof (cases "c = []")
      case True
      with Some w0 show ?thesis by (simp add: effect_def wf_fields)
    next
      case False
      show ?thesis
      proof (cases "c = ''undefined''")
        case True
        with Some w0 show ?thesis by (simp add: effect_def wf_fields)
      next
        case ok: False
        show ?thesis
        proof (cases "getToken b")
          case (Inl e)
          with Some False ok w0 show ?thesis by (simp add: effect_Some)
        next
          case (Inr tok)
          show ?thesis
          proof (cases "\<exists>t ts. tok = Some (t # ts)")
            case False
            then have "tok = None \<or> tok = Some []"
              by (metis list.exhaust option.exhaust)
            with Inr Some \<open>c \<noteq> []\<close> ok w0 show ?thesis
              by (auto simp: effect_Some wf_fields)
          next
            case True
            then obtain t ts where tok: "tok = Some (t # ts)" by blast
            define w1 where "w1 = (case socketRef ?w0 of None \<Rightarrow> ?w0 | Some s \<Rightarrow> close s ?w0)"
            have w1: "wf b w1"
              using w0 by (simp add: w1_def wf_close split: option.splits)
            let ?w2 = "w1\<lparr>closures := closures w1 @
               [\<lparr>channelId = c, token = t # ts, reconnectAttempts = 0,
                 reconnectTimeout = None\<rparr>]\<rparr>"
            have eq: "snd (effect b (Some c) w)
                = (connectWebSocket b (length (closures w1)) ?w2)
                    \<lparr>cleanup := Some (length (closures w1))\<rparr>"
              using \<open>c \<noteq> []\<close> ok Inr tok by (simp add: effect_Some Let_def w1_def)
            have "wf b ?w2"
              using w1 Inr tok by (intro wf_new_closure) simp_all
            then have "wf b (connectWebSocket b (length (closures w1)) ?w2)"
              by (rule wf_connectWebSocket) simp
            then show ?thesis
              unfolding Some eq by (rule wf_fields)
          qed
        qed
      qed
    qed
  qed
qed

lemma wf_render: "wf b w \<Longrightarrow> wf b (snd (render b ch w))"
  by (simp add: render_def Let_def wf_effect wf_fields wf_cleanup_fn split: option.splits)

lemma wf_step:
  assumes w: "wf b w"
  shows "wf b (snd (step b e w))"
proof (cases e)
  case (Rendered ch)
  with w show ?thesis by (simp add: wf_render)
next
  case (Opened s)
  with w show ?thesis by (simp add: wf_opened)
next
  case (Received s p)
  with w show ?thesis by (simp add: wf_onmessage)
next
  case (Errored s m)
  with w show ?thesis by (simp add: wf_onerror)
next
  case (Closing_started s)
  with w show ?thesis by (simp add: wf_close)
next
  case (Closed_with s code)
  show ?thesis
  proof (cases "s < length (sockets w) \<and> readyState (sockets w ! s) \<noteq> CLOSED")
    case True
    then have "closure_of (sockets w ! s) < length (closures w)"
      using w by (simp add: wf_def)
    then have "closure_of (sockets w ! s) < length (closures (set_readyState s CLOSED w))"
      by (simp add: set_readyState_def)
    with w True Closed_with show ?thesis
      by (simp add: wf_onclose wf_closed)
  next
    case False
    with w Closed_with show ?thesis by auto
  qed
next
  case (Timer_fired t)
  show ?thesis
  proof (cases "t < length (timers w) \<and> pending (timers w ! t)")
    case True
    let ?w = "w\<lparr>timers := (timers w)[t := (timers w ! t)\<lparr>pending := False\<rparr>]\<rparr>"
    have "?w = clearTimeout (Some t) w"
      using True by (simp add: clearTimeout_def)
    then have "wf b ?w"
      using w wf_clearTimeout [of b w "Some t"] by simp
    moreover have "callback_of (timers w ! t) < length (closures ?w)"
      using w True by (simp add: wf_def)
    ultimately show ?thesis
      using True Timer_fired by (simp add: wf_reconnect)
  next
    case False
    with w Timer_fired show ?thesis by auto
  qed
next
  case (Send_called p)
  with w show ?thesis by (simp add: wf_sendMessage)
qed

lemma wf_run: "wf b w \<Longrightarrow> wf b (snd (run b es w))"
proof (induction es arbitrary: w)
  case Nil
  then show ?case by simp
next
  case (Cons e es)
  obtain x w' where st: "step b e w = (x, w')" by (cases "step b e w")
  with Cons.prems wf_step [of b w e] have inv: "wf b w'" by simp
  show ?case
  proof (cases x)
    case None
    with st Cons.IH [OF inv] show ?thesis by simp
  next
    case (Some a)
    with st inv show ?thesis by simp
  qed
qed

lemma wf_mount: "wf b mount"
  by (simp add: wf_def mount_def)

text \<open>
  C9. In every state a run can reach, the open event of a connecting socket (the first
  of a bind or one made by a reconnect) leaves that socket with exactly one frame sent,
  the JSON text of \<open>{token: t}\<close> where \<open>t\<close> is the token of the socket's closure, which
  is the one \<^verbatim>\<open>getToken\<close> returns; the socket is open, the connected flag is true,
  the error is cleared and the closure's \<open>reconnectAttempts\<close> is 0. In every reachable
  state the first frame of every socket that has sent anything is such a frame.
\<close>

theorem C9_open_authenticates:
  assumes "w = snd (run b evs mount)"
    and "s < length (sockets w)"
    and "readyState (sockets w ! s) = CONNECTING"
  shows "sent (sockets (snd (step b (Opened s) w)) ! s)
           = [auth (token (closures w ! closure_of (sockets w ! s)))]
    \<and> getToken b = Inr (Some (token (closures w ! closure_of (sockets w ! s))))
    \<and> readyState (sockets (snd (step b (Opened s) w)) ! s) = OPEN
    \<and> isConnected (snd (step b (Opened s) w))
    \<and> error (snd (step b (Opened s) w)) = None
    \<and> reconnectAttempts
         (closures (snd (step b (Opened s) w)) ! closure_of (sockets w ! s)) = 0
    \<and> (\<forall>k \<in> set (sockets (snd (run b later mount))).
          sent k = [] \<or> (\<exists>t. getToken b = Inr (Some t) \<and> hd (sent k) = auth t))"
proof -
  let ?c = "closure_of (sockets w ! s)"
  have w: "wf b w"
    unfolding assms(1) using wf_mount by (rule wf_run)
  have c: "?c < length (closures w)"
    using w assms(2) by (simp add: wf_def)
  then have t: "getToken b = Inr (Some (token (closures w ! ?c)))"
    using w by (simp add: wf_def)
  have e: "sent (sockets w ! s) = []"
    using wf_framed [OF w assms(2)] assms(3) by (simp add: framed_def)
  have st: "snd (step b (Opened s) w) = onopen ?c s (set_readyState s OPEN w)"
    using assms(2,3) by simp
  have "wf b (snd (run b later mount))"
    using wf_mount by (rule wf_run)
  then have "\<forall>k \<in> set (sockets (snd (run b later mount))).
          sent k = [] \<or> (\<exists>t. getToken b = Inr (Some t) \<and> hd (sent k) = auth t)"
    by (auto simp: wf_def framed_def)
  then show ?thesis
    unfolding st opened_eq [OF assms(2)] using assms(2) c t e
    by (simp add: update_closure_def)
qed

theorem C9_open_authenticates_witness:
  "0 < length (sockets (snd (run a_browser [Rendered (Some ''general'')] mount)))
   \<and> readyState (sockets (snd (run a_browser [Rendered (Some ''general'')] mount)) ! 0)
       = CONNECTING
   \<and> sent (sockets (snd (step a_browser (Opened 0)
        (snd (run a_browser [Rendered (Some ''general'')] mount)))) ! 0) = [auth ''tok'']
   \<and> isConnected (snd (step a_browser (Opened 0)
        (snd (run a_browser [Rendered (Some ''general'')] mount))))"
proof -
  let ?w = "snd (run a_browser [Rendered (Some ''general'')] mount)"
  have w: "?w = \<lparr>messages = [], isConnected = False, error = None, socketRef = Some 0,
       processedMessageIds = [],
       closures = [\<lparr>channelId = ''general'', token = ''tok'', reconnectAttempts = 0,
                    reconnectTimeout = None\<rparr>],
       sockets = [\<lparr>url = ''wss://api.loryx.lol/chat/channels/general/ws'', closure_of = 0,
                   readyState = CONNECTING, sent = []\<rparr>],
       timers = [], cleanup = Some 0, deps = Some (Some ''general'')\<rparr>"
    by (simp add: a_browser_def world_defs)
  have a: "0 < length (sockets ?w)" and b: "readyState (sockets ?w ! 0) = CONNECTING"
    and c: "token (closures ?w ! closure_of (sockets ?w ! 0)) = ''tok''"
    unfolding w by simp_all
  from C9_open_authenticates [OF refl a b, of "[]"] c
  have "sent (sockets (snd (step a_browser (Opened 0) ?w)) ! 0) = [auth ''tok'']"
    and "isConnected (snd (step a_browser (Opened 0) ?w))"
    by simp_all
  with a b show ?thesis by blast
qed

subsection \<open>Consecutive abnormal closures\<close>

lemma same_for_refl: "c < length (closures w) \<Longrightarrow> same_for c w w"
  by (simp add: same_for_def)

lemma same_trying: "same_for c w w' \<Longrightarrow> trying b c k w \<Longrightarrow> trying b c k w'"
  by (simp add: same_for_def trying_def)

lemma same_reconnecting: "same_for c w w' \<Longrightarrow> reconnecting b c k w \<Longrightarrow> reconnecting b c k w'"
  by (simp add: same_for_def reconnecting_def) metis

lemma same_failed: "same_for c w w' \<Longrightarrow> failed c w \<Longrightarrow> failed c w'"
  by (simp add: same_for_def failed_def)

lemma live_update:
  "live c (ss[s := k]) s' =
     (if s' = s \<and> s < length ss then closure_of k = c \<and> readyState k \<noteq> CLOSED
      else live c ss s')"
  by (auto simp: live_def nth_list_update)

lemma live_append:
  "live c (ss @ [k]) s' =
     (if s' = length ss then closure_of k = c \<and> readyState k \<noteq> CLOSED else live c ss s')"
  by (auto simp: live_def nth_append)

lemma armed_update:
  "armed c (ts[t := k]) t' =
     (if t' = t \<and> t < length ts then callback_of k = c \<and> pending k else armed c ts t')"
  by (auto simp: armed_def nth_list_update)

lemma armed_append:
  "armed c (ts @ [k]) t' =
     (if t' = length ts then callback_of k = c \<and> pending k else armed c ts t')"
  by (auto simp: armed_def nth_append)

lemma same_close: "c < length (closures w) \<Longrightarrow> same_for c w (close s w)"
  by (simp add: same_for_def close_def live_update) (auto simp: live_def)

lemma same_send: "c < length (closures w) \<Longrightarrow> same_for c w (send s m w)"
  by (simp add: same_for_def send_def live_update) (auto simp: live_def)

lemma same_onmessage: "c < length (closures w) \<Longrightarrow> same_for c w (onmessage p w)"
  by (auto simp: same_for_def onmessage_def handle_def split: sum.splits)

lemma same_onerror: "c < length (closures w) \<Longrightarrow> same_for c w (onerror m w)"
  by (simp add: same_for_def onerror_def)

lemma same_sendMessage: "c < length (closures w) \<Longrightarrow> same_for c w (snd (sendMessage p w))"
  using same_send [of c w]
  by (auto simp: sendMessage_def same_for_def split: option.splits sum.splits)

lemma same_opened:
  assumes "c < length (closures w)" and "s < length (sockets w)"
    and "closure_of (sockets w ! s) \<noteq> c"
  shows "same_for c w (onopen (closure_of (sockets w ! s)) s (set_readyState s OPEN w))"
  using assms
  by (simp add: same_for_def onopen_def set_readyState_def send_def update_closure_def Let_def
      live_update) (auto simp: live_def)

lemma same_closed:
  assumes "c < length (closures w)" and "s < length (sockets w)"
    and "closure_of (sockets w ! s) \<noteq> c"
  shows "same_for c w (onclose (closure_of (sockets w ! s)) code (set_readyState s CLOSED w))"
  using assms
  by (simp add: same_for_def onclose_def set_readyState_def setTimeout_def update_closure_def
      Let_def live_update armed_append nth_append) (auto simp: live_def armed_def)

lemma same_fired:
  assumes "c < length (closures w)" and "t < length (timers w)"
    and "callback_of (timers w ! t) \<noteq> c"
  shows "same_for c w (reconnect b (callback_of (timers w ! t))
           (w\<lparr>timers := (timers w)[t := (timers w ! t)\<lparr>pending := False\<rparr>]\<rparr>))"
  using assms
  by (simp add: same_for_def reconnect_def connectWebSocket_def update_closure_def
      live_append armed_update nth_list_update) (auto simp: live_def armed_def)

lemma noise_step:
  assumes c: "c < length (closures w)" and "allowed c w e"
    and "\<not> closes c w e" and "\<not> fires c w e"
  shows "same_for c w (snd (step b e w))"
proof (cases e)
  case (Rendered ch)
  with assms show ?thesis by (simp add: render_def same_for_refl)
next
  case (Opened s)
  show ?thesis
  proof (cases "s < length (sockets w) \<and> readyState (sockets w ! s) = CONNECTING")
    case True
    with assms(2) Opened have "closure_of (sockets w ! s) \<noteq> c"
      by (auto simp: live_def)
    with True c Opened show ?thesis by (simp add: same_opened)
  next
    case False
    with c Opened show ?thesis by (auto simp: same_for_refl)
  qed
next
  case (Received s p)
  with c show ?thesis by (simp add: same_onmessage same_for_refl)
next
  case (Errored s m)
  with c show ?thesis by (simp add: same_onerror same_for_refl)
next
  case (Closing_started s)
  with c show ?thesis by (simp add: same_close)
next
  case (Closed_with s code)
  show ?thesis
  proof (cases "s < length (sockets w) \<and> readyState (sockets w ! s) \<noteq> CLOSED")
    case True
    with assms(3) Closed_with have "closure_of (sockets w ! s) \<noteq> c"
      by (auto simp: live_def)
    with True c Closed_with show ?thesis by (simp add: same_closed)
  next
    case False
    with c Closed_with show ?thesis by (auto simp: same_for_refl)
  qed
next
  case (Timer_fired t)
  show ?thesis
  proof (cases "t < length (timers w) \<and> pending (timers w ! t)")
    case True
    with assms(4) Timer_fired have "callback_of (timers w ! t) \<noteq> c"
      by (auto simp: armed_def)
    with True c Timer_fired show ?thesis by (simp add: same_fired)
  next
    case False
    with c Timer_fired show ?thesis by (auto simp: same_for_refl)
  qed
next
  case (Send_called p)
  with c show ?thesis by (simp add: same_sendMessage)
qed

lemma close_trying:
  assumes t: "trying b c k w" and l: "live c (sockets w) s" and a: "abnormal code"
  shows "(k < maxReconnectAttempts \<longrightarrow>
            reconnecting b c k (snd (step b (Closed_with s code) w))
            \<and> error (snd (step b (Closed_with s code) w)) = error w)
       \<and> (k = maxReconnectAttempts \<longrightarrow>
            failed c (snd (step b (Closed_with s code) w))
            \<and> error (snd (step b (Closed_with s code) w))
                = Some ''Could not reconnect to chat. Please refresh the page.''
            \<and> timers (snd (step b (Closed_with s code) w)) = timers w)"
proof -
  from l have s: "s < length (sockets w)" "closure_of (sockets w ! s) = c"
    "readyState (sockets w ! s) \<noteq> CLOSED"
    by (simp_all add: live_def)
  from t l have only: "\<And>s'. live c (sockets w) s' \<Longrightarrow> s' = s"
    by (auto simp: trying_def)
  from t have none: "\<And>t. \<not> armed c (timers w) t"
    by (simp add: trying_def)
  have st: "snd (step b (Closed_with s code) w) = onclose c code (set_readyState s CLOSED w)"
    using s by simp
  have gone: "\<not> live c ((sockets w)[s := (sockets w ! s)\<lparr>readyState := CLOSED\<rparr>]) s'" for s'
    using only [of s'] s by (auto simp: live_update)
  show ?thesis
    unfolding st using t a s gone none
    by (auto simp: trying_def reconnecting_def failed_def abnormal_def onclose_def
        set_readyState_def setTimeout_def update_closure_def Let_def armed_append)
qed

lemma fire_reconnecting:
  assumes bo: "reconnecting b c k w" and f: "armed c (timers w) t"
  shows "trying b c (Suc k) (snd (step b (Timer_fired t) w))"
proof -
  from f have t: "t < length (timers w)" "callback_of (timers w ! t) = c" "pending (timers w ! t)"
    by (simp_all add: armed_def)
  from bo f have only: "\<And>t'. armed c (timers w) t' \<Longrightarrow> t' = t"
    by (auto simp: reconnecting_def)
  from bo have none: "\<And>s. \<not> live c (sockets w) s"
    by (simp add: reconnecting_def)
  have st: "snd (step b (Timer_fired t) w)
      = reconnect b c (w\<lparr>timers := (timers w)[t := (timers w ! t)\<lparr>pending := False\<rparr>]\<rparr>)"
    using t by simp
  have gone: "\<not> armed c ((timers w)[t := (timers w ! t)\<lparr>pending := False\<rparr>]) t'" for t'
    using only [of t'] t by (auto simp: armed_update)
  show ?thesis
    unfolding st using bo t gone none
    by (auto simp: trying_def reconnecting_def reconnect_def connectWebSocket_def
        update_closure_def live_append)
qed

lemma phase_bound: "phase b c n w \<Longrightarrow> c < length (closures w)"
  by (auto simp: phase_def trying_def reconnecting_def failed_def)

lemma phase_step:
  assumes p: "phase b c n w" and al: "allowed c w e"
  shows "phase b c (n + (if closes c w e then 1 else 0)) (snd (step b e w))"
proof (cases "closes c w e")
  case True
  then obtain s code where e: "e = Closed_with s code" and l: "live c (sockets w) s"
    by (cases e) simp_all
  from al e l have a: "abnormal code" by simp
  from p l have t: "n \<le> maxReconnectAttempts" "trying b c n w"
    by (auto simp: phase_def reconnecting_def failed_def)
  show ?thesis
    using close_trying [OF t(2) l a, of ] t(1) True e
    by (auto simp: phase_def)
next
  case nc: False
  show ?thesis
  proof (cases "fires c w e")
    case True
    then obtain t where e: "e = Timer_fired t" and f: "armed c (timers w) t"
      by (cases e) simp_all
    from p f have bo: "1 \<le> n" "n \<le> maxReconnectAttempts" "reconnecting b c (n - 1) w"
      by (auto simp: phase_def trying_def failed_def)
    from fire_reconnecting [OF bo(3) f, of ] bo(1,2) e show ?thesis
      by (simp add: phase_def)
  next
    case False
    from noise_step [OF phase_bound [OF p] al nc False]
    have "same_for c w (snd (step b e w))" .
    with p nc show ?thesis
      by (auto simp: phase_def dest: same_trying same_reconnecting same_failed)
  qed
qed

lemma allowed_no_exception: "allowed c w e \<Longrightarrow> fst (step b e w) = None"
  by (cases e) (simp_all add: render_def)

lemma phase_run:
  "phase b c n w \<Longrightarrow> undisturbed c b evs w \<Longrightarrow>
     phase b c (n + count_closures c b evs w) (snd (run b evs w))"
proof (induction evs arbitrary: n w)
  case Nil
  then show ?case by simp
next
  case (Cons e es)
  from Cons.prems have al: "allowed c w e" and u: "undisturbed c b es (snd (step b e w))"
    by simp_all
  have st: "step b e w = (None, snd (step b e w))"
    using allowed_no_exception [OF al, of b] by (cases "step b e w") simp
  from phase_step [OF Cons.prems(1) al]
  have "phase b c (n + (if closes c w e then 1 else 0)) (snd (step b e w))" .
  from Cons.IH [OF this u] show ?case
    by (subst run.simps, subst st) (simp add: add.assoc)
qed

lemma trying_after_bind:
  assumes v: "wf b v" and d: "deps v \<noteq> Some (Some ch)"
    and ch: "ch \<noteq> []" "ch \<noteq> ''undefined''"
    and tok: "getToken b = Inr (Some (t # ts))" and u: "\<not> WebSocket_throws b (wsUrl ch)"
  shows "trying b (length (closures v)) 0 (snd (render b (Some ch) v))"
proof -
  define w1 where
    "w1 = (case cleanup v of None \<Rightarrow> v | Some c \<Rightarrow> cleanup_fn c v)\<lparr>deps := Some (Some ch)\<rparr>"
  let ?w0 = "w1\<lparr>messages := [], processedMessageIds := [], cleanup := None\<rparr>"
  define w2 where "w2 = (case socketRef ?w0 of None \<Rightarrow> ?w0 | Some s \<Rightarrow> close s ?w0)"
  have r: "render b (Some ch) v = effect b (Some ch) w1"
    using d by (simp add: render_def w1_def Let_def)
  have "wf b w1"
    using v by (simp add: w1_def wf_fields wf_cleanup_fn split: option.splits)
  then have "wf b ?w0"
    by (simp add: wf_def)
  then have w2: "wf b w2"
    by (simp add: w2_def wf_close split: option.splits)
  have c: "closures w2 = closures v"
    by (simp add: w2_def w1_def split: option.splits)
  have cs: "closure_of (sockets w2 ! s) < length (closures w2)" if "s < length (sockets w2)" for s
    using w2 that by (simp add: wf_def)
  have old_s: "\<not> live (length (closures v)) (sockets w2) s" for s
    using cs [of s] unfolding c [symmetric] by (auto simp: live_def)
  have ct: "callback_of (timers w2 ! t') < length (closures w2)" if "t' < length (timers w2)" for t'
    using w2 that by (simp add: wf_def)
  have old_t: "\<not> armed (length (closures v)) (timers w2) t'" for t'
    using ct [of t'] unfolding c [symmetric] by (auto simp: armed_def)
  let ?w3 = "w2\<lparr>closures := closures w2 @
               [\<lparr>channelId = ch, token = t # ts, reconnectAttempts = 0,
                 reconnectTimeout = None\<rparr>]\<rparr>"
  have eq: "snd (effect b (Some ch) w1)
      = (connectWebSocket b (length (closures w2)) ?w3)\<lparr>cleanup := Some (length (closures w2))\<rparr>"
    using ch tok by (simp add: effect_Some Let_def w2_def)
  have cw: "connectWebSocket b (length (closures w2)) ?w3
      = ?w3\<lparr>sockets := sockets w2 @
               [\<lparr>url = wsUrl ch, closure_of = length (closures w2),
                 readyState = CONNECTING, sent = []\<rparr>],
             socketRef := Some (length (sockets w2))\<rparr>"
    using u by (simp add: connectWebSocket_def)
  have "trying b (length (closures w2)) 0
      (?w3\<lparr>sockets := sockets w2 @
               [\<lparr>url = wsUrl ch, closure_of = length (closures w2),
                 readyState = CONNECTING, sent = []\<rparr>],
             socketRef := Some (length (sockets w2)),
             cleanup := Some (length (closures w2))\<rparr>)"
    using u old_s old_t unfolding c [symmetric]
    by (simp add: trying_def live_append)
  then show ?thesis
    unfolding r eq cw c [symmetric] by simp
qed

lemma trying_after_open:
  assumes t: "trying b c k v" and l: "live c (sockets v) s"
    and r: "readyState (sockets v ! s) = CONNECTING"
  shows "trying b c 0 (snd (step b (Opened s) v))
    \<and> readyState (sockets (snd (step b (Opened s) v)) ! s) = OPEN"
proof -
  from l have s: "s < length (sockets v)" "closure_of (sockets v ! s) = c"
    by (simp_all add: live_def)
  from t have c: "c < length (closures v)"
    by (simp add: trying_def)
  let ?k = "(sockets v ! s)\<lparr>readyState := OPEN,
      sent := sent (sockets v ! s) @ [auth (token (closures v ! c))]\<rparr>"
  have st: "snd (step b (Opened s) v)
      = update_closure c (\<lambda>k. k\<lparr>reconnectAttempts := 0\<rparr>)
          (v\<lparr>sockets := (sockets v)[s := ?k], isConnected := True, error := None\<rparr>)"
    using s r opened_eq [OF s(1), of c] by simp
  have same: "live c ((sockets v)[s := ?k]) s' = live c (sockets v) s'" for s'
    using l s by (simp add: live_update)
  have "trying b c 0 (update_closure c (\<lambda>k. k\<lparr>reconnectAttempts := 0\<rparr>)
          (v\<lparr>sockets := (sockets v)[s := ?k], isConnected := True, error := None\<rparr>))"
    using t c by (simp add: trying_def update_closure_def same)
  moreover have "readyState (sockets (update_closure c (\<lambda>k. k\<lparr>reconnectAttempts := 0\<rparr>)
          (v\<lparr>sockets := (sockets v)[s := ?k], isConnected := True, error := None\<rparr>)) ! s) = OPEN"
    using s by (simp add: update_closure_def)
  ultimately show ?thesis
    unfolding st by blast
qed

lemma fresh_bind:
  assumes "ch \<noteq> []" "ch \<noteq> ''undefined''" "getToken b = Inr (Some (t # ts))"
    "\<not> WebSocket_throws b (wsUrl ch)"
  shows "render b (Some ch) mount = (None, retrying ch (t # ts) 0)"
  using assms
  by (simp add: render_def mount_def effect_Some connectWebSocket_def retrying_def socket_of_def Let_def)

lemma replicate_snoc_nth: "(replicate k x @ [y]) ! k = y"
  by (simp add: nth_append)

lemma replicate_snoc_update: "(replicate k x @ [y])[k := z] = replicate k x @ [z]"
  by (metis length_replicate list_update_length)

lemma closes_retrying:
  assumes "k < maxReconnectAttempts" "abnormal code"
  shows "step b (Closed_with k code) (retrying ch tok k) = (None, waiting ch tok k)"
  using assms
  by (simp add: retrying_def waiting_def abnormal_def onclose_def
      set_readyState_def setTimeout_def update_closure_def socket_of_def
      replicate_snoc_nth replicate_snoc_update replicate_append_same Let_def nth_append)

lemma elapses_waiting:
  assumes "\<not> WebSocket_throws b (wsUrl ch)"
  shows "step b (Timer_fired k) (waiting ch tok k) = (None, retrying ch tok (Suc k))"
proof -
  have "(map fired [0..<k] @ [\<lparr>callback_of = 0, timeout = delay k, pending = True\<rparr>]) ! k
      = \<lparr>callback_of = 0, timeout = delay k, pending = True\<rparr>"
    by (simp add: nth_append)
  moreover have "(map fired [0..<k] @ [\<lparr>callback_of = 0, timeout = delay k, pending = True\<rparr>])
      [k := \<lparr>callback_of = 0, timeout = delay k, pending = False\<rparr>] = map fired [0..<Suc k]"
    using list_update_length [of "map fired [0..<k]"
        "\<lparr>callback_of = 0, timeout = delay k, pending = True\<rparr>" "[]"
        "\<lparr>callback_of = 0, timeout = delay k, pending = False\<rparr>"]
    by (simp add: fired_def)
  ultimately show ?thesis
    using assms
    by (simp add: waiting_def retrying_def reconnect_def
        connectWebSocket_def update_closure_def socket_of_def)
qed

lemma closes_last:
  assumes "abnormal code"
  shows "step b (Closed_with maxReconnectAttempts code) (retrying ch tok maxReconnectAttempts)
    = (None, given_up ch tok)"
  using assms
  by (simp add: retrying_def given_up_def abnormal_def onclose_def
      set_readyState_def replicate_snoc_nth replicate_snoc_update replicate_append_same
      socket_of_def Let_def)

lemma live_retrying: "live 0 (sockets (retrying ch tok k)) s = (s = k)"
  by (auto simp: live_def retrying_def socket_of_def nth_append)

lemma live_waiting: "\<not> live 0 (sockets (waiting ch tok k)) s"
  by (auto simp: live_def waiting_def socket_of_def simp del: replicate_Suc)

lemma live_given_up: "\<not> live 0 (sockets (given_up ch tok)) s"
  by (auto simp: live_def given_up_def socket_of_def simp del: replicate_Suc)

lemma armed_retrying: "\<not> armed 0 (timers (retrying ch tok k)) t"
  by (auto simp: armed_def retrying_def fired_def)

lemma armed_waiting: "armed 0 (timers (waiting ch tok k)) t = (t = k)"
  by (auto simp: armed_def waiting_def fired_def nth_append)

lemma armed_given_up: "\<not> armed 0 (timers (given_up ch tok)) t"
  by (auto simp: armed_def given_up_def retrying_def fired_def)

lemma trying_retrying:
  "k \<le> maxReconnectAttempts \<Longrightarrow> \<not> WebSocket_throws b (wsUrl ch) \<Longrightarrow>
     trying b 0 k (retrying ch tok k)"
  unfolding trying_def by (simp add: live_retrying armed_retrying) (simp add: retrying_def)

lemma reconnecting_waiting:
  "k < maxReconnectAttempts \<Longrightarrow> \<not> WebSocket_throws b (wsUrl ch) \<Longrightarrow>
     reconnecting b 0 k (waiting ch tok k)"
  unfolding reconnecting_def by (simp add: live_waiting armed_waiting) (simp add: waiting_def nth_append)

lemma failed_given_up: "failed 0 (given_up ch tok)"
  unfolding failed_def by (simp add: live_given_up armed_given_up) (simp add: given_up_def retrying_def)

lemma not_failed_waiting: "\<not> failed 0 (waiting ch tok k)"
  unfolding failed_def using armed_waiting [of ch tok k k] by blast

lemma a_browser_token: "getToken a_browser = Inr (Some (CHR ''t'' # ''ok''))"
  by (simp add: getToken_def a_browser_def)

lemma a_browser_accepts: "\<not> WebSocket_throws a_browser u"
  by (simp add: a_browser_def)

lemma a_browser_bind:
  "step a_browser (Rendered (Some ''general'')) mount = (None, retrying ''general'' ''tok'' 0)"
  using fresh_bind [of "''general''" a_browser "CHR ''t''" "''ok''"]
  by (simp add: a_browser_token a_browser_accepts)

lemma sucs: "Suc 0 = 1" "Suc 1 = 2" "Suc 2 = 3" "Suc 3 = 4" "Suc 4 = 5"
  by simp_all

lemma below_ceiling:
  "0 < maxReconnectAttempts" "1 < maxReconnectAttempts" "2 < maxReconnectAttempts"
  "3 < maxReconnectAttempts" "4 < maxReconnectAttempts"
  by (simp_all add: maxReconnectAttempts_def)

lemma abnormal_1006: "abnormal 1006"
  by (simp add: abnormal_def)

lemmas failing_steps =
  a_browser_bind
  closes_retrying [OF below_ceiling(1) abnormal_1006]
  closes_retrying [OF below_ceiling(2) abnormal_1006]
  closes_retrying [OF below_ceiling(3) abnormal_1006]
  closes_retrying [OF below_ceiling(4) abnormal_1006]
  closes_retrying [OF below_ceiling(5) abnormal_1006]
  closes_last [OF abnormal_1006, unfolded maxReconnectAttempts_def]
  elapses_waiting [OF a_browser_accepts, where k = 0, unfolded sucs]
  elapses_waiting [OF a_browser_accepts, where k = 1, unfolded sucs]
  elapses_waiting [OF a_browser_accepts, where k = 2, unfolded sucs]
  elapses_waiting [OF a_browser_accepts, where k = 3, unfolded sucs]
  elapses_waiting [OF a_browser_accepts, where k = 4, unfolded sucs]

lemmas failing_run =
  failing_steps run.simps count_closures.simps undisturbed.simps closes.simps allowed.simps
  live_retrying live_waiting live_given_up prod.case option.case snd_conv fst_conv
  simp_thms if_True if_False abnormal_1006

lemma not_failed_phase:
  assumes "trying b c k w \<or> reconnecting b c j w"
  shows "\<not> failed c w"
  using assms by (auto simp: trying_def reconnecting_def failed_def)

text \<open>
  C2 as stated fails at N = 5: after a first bind and five consecutive abnormal closures
  (no connection ever opened) the fifth reconnect is scheduled (it is the attempt the
  source logs as 5/5), the controller has not failed and no error is set.
\<close>

theorem C2_counterexample:
  "count_closures 0 a_browser
     [Rendered (Some ''general''),
      Closed_with 0 1006, Timer_fired 0, Closed_with 1 1006, Timer_fired 1,
      Closed_with 2 1006, Timer_fired 2, Closed_with 3 1006, Timer_fired 3,
      Closed_with 4 1006] mount = 5
   \<and> abnormal 1006
   \<and> reconnecting a_browser 0 4 (snd (run a_browser
     [Rendered (Some ''general''),
      Closed_with 0 1006, Timer_fired 0, Closed_with 1 1006, Timer_fired 1,
      Closed_with 2 1006, Timer_fired 2, Closed_with 3 1006, Timer_fired 3,
      Closed_with 4 1006] mount))
   \<and> \<not> failed 0 (snd (run a_browser
     [Rendered (Some ''general''),
      Closed_with 0 1006, Timer_fired 0, Closed_with 1 1006, Timer_fired 1,
      Closed_with 2 1006, Timer_fired 2, Closed_with 3 1006, Timer_fired 3,
      Closed_with 4 1006] mount))
   \<and> error (snd (run a_browser
     [Rendered (Some ''general''),
      Closed_with 0 1006, Timer_fired 0, Closed_with 1 1006, Timer_fired 1,
      Closed_with 2 1006, Timer_fired 2, Closed_with 3 1006, Timer_fired 3,
      Closed_with 4 1006] mount)) = None"
proof -
  let ?evs = "[Rendered (Some ''general''),
      Closed_with 0 1006, Timer_fired 0, Closed_with 1 1006, Timer_fired 1,
      Closed_with 2 1006, Timer_fired 2, Closed_with 3 1006, Timer_fired 3,
      Closed_with 4 1006]"
  have n: "count_closures 0 a_browser ?evs mount = 5"
    by (simp only: failing_run)
  have w: "snd (run a_browser ?evs mount) = waiting ''general'' ''tok'' 4"
    by (simp only: failing_run)
  have r: "reconnecting a_browser 0 4 (waiting ''general'' ''tok'' 4)"
    by (rule reconnecting_waiting) (simp_all add: maxReconnectAttempts_def a_browser_accepts)
  have e: "error (waiting ''general'' ''tok'' 4) = None"
    by (simp add: waiting_def)
  have f: "\<not> failed 0 (waiting ''general'' ''tok'' 4)"
    by (rule not_failed_waiting)
  from n r f e abnormal_1006 show ?thesis
    unfolding w by blast
qed

lemma phase_bounds:
  assumes p: "phase b c n w"
  shows "n \<le> Suc maxReconnectAttempts"
    and "n \<le> maxReconnectAttempts \<longrightarrow>
      (trying b c n w \<or> (1 \<le> n \<and> reconnecting b c (n - 1) w)) \<and> \<not> failed c w"
    and "n = Suc maxReconnectAttempts \<longrightarrow> failed c w"
proof -
  from p consider (t) "n \<le> maxReconnectAttempts" "trying b c n w"
    | (r) "1 \<le> n" "n \<le> maxReconnectAttempts" "reconnecting b c (n - 1) w"
    | (f) "n = Suc maxReconnectAttempts" "failed c w"
    unfolding phase_def by blast
  then show "n \<le> Suc maxReconnectAttempts"
    by cases simp_all
  from p show "n = Suc maxReconnectAttempts \<longrightarrow> failed c w"
    unfolding phase_def by auto
  show "n \<le> maxReconnectAttempts \<longrightarrow>
      (trying b c n w \<or> (1 \<le> n \<and> reconnecting b c (n - 1) w)) \<and> \<not> failed c w"
  proof
    assume le: "n \<le> maxReconnectAttempts"
    with p have d: "trying b c n w \<or> (1 \<le> n \<and> reconnecting b c (n - 1) w)"
      unfolding phase_def by auto
    then have "trying b c n w \<or> reconnecting b c (n - 1) w" by blast
    then have "\<not> failed c w" by (rule not_failed_phase)
    with d show "(trying b c n w \<or> (1 \<le> n \<and> reconnecting b c (n - 1) w)) \<and> \<not> failed c w"
      by blast
  qed
qed

lemma phase_live:
  assumes p: "phase b c n w" and l: "live c (sockets w) s"
  shows "trying b c n w"
proof -
  from l have "\<not> reconnecting b c (n - 1) w" "\<not> failed c w"
    unfolding reconnecting_def failed_def by blast+
  with p show ?thesis
    unfolding phase_def by blast
qed

text \<open>
  C2, amended. A bind that creates a socket, from any reachable state, leaves its
  controller trying with counter 0; so does the open event of any of its connecting
  sockets. From such a state, for every run that leaves the controller undisturbed (none
  of its sockets opens, no rebind, its closures all abnormal; anything else may happen
  in between), with \<open>n\<close> the number of its closures in the run: \<open>n\<close> is at most 6; for
  \<open>n \<le> 5\<close> the controller is trying or reconnecting and has not failed; for \<open>n = 6\<close> it
  has failed for good. The next abnormal closure schedules a reconnect with the backoff
  delay of attempt \<open>n\<close> and leaves the error alone when \<open>n < 5\<close>; when \<open>n = 5\<close> (it is
  the sixth) it sets "Could not reconnect to chat. Please refresh the page." and
  schedules nothing.
\<close>

theorem C2_reconnect_ceiling:
  "(v = snd (run b pre mount) \<and> deps v \<noteq> Some (Some ch) \<and> ch \<noteq> [] \<and> ch \<noteq> ''undefined''
      \<and> getToken b = Inr (Some (t # ts)) \<and> \<not> WebSocket_throws b (wsUrl ch) \<longrightarrow>
      trying b (length (closures v)) 0 (snd (render b (Some ch) v)))
   \<and> (trying b c k v \<and> live c (sockets v) s \<and> readyState (sockets v ! s) = CONNECTING \<longrightarrow>
        trying b c 0 (snd (step b (Opened s) v)))
   \<and> (trying b c 0 init \<and> undisturbed c b evs init \<and> n = count_closures c b evs init
        \<and> w = snd (run b evs init) \<longrightarrow>
        n \<le> Suc maxReconnectAttempts
        \<and> (n \<le> maxReconnectAttempts \<longrightarrow>
             (trying b c n w \<or> (1 \<le> n \<and> reconnecting b c (n - 1) w)) \<and> \<not> failed c w)
        \<and> (n = Suc maxReconnectAttempts \<longrightarrow> failed c w)
        \<and> (\<forall>s' code. live c (sockets w) s' \<and> abnormal code \<longrightarrow>
             (n < maxReconnectAttempts \<longrightarrow>
                reconnecting b c n (snd (step b (Closed_with s' code) w))
                \<and> error (snd (step b (Closed_with s' code) w)) = error w)
             \<and> (n = maxReconnectAttempts \<longrightarrow>
                failed c (snd (step b (Closed_with s' code) w))
                \<and> error (snd (step b (Closed_with s' code) w))
                    = Some ''Could not reconnect to chat. Please refresh the page.''
                \<and> timers (snd (step b (Closed_with s' code) w)) = timers w)))"
proof (intro conjI)
  show "v = snd (run b pre mount) \<and> deps v \<noteq> Some (Some ch) \<and> ch \<noteq> [] \<and> ch \<noteq> ''undefined''
      \<and> getToken b = Inr (Some (t # ts)) \<and> \<not> WebSocket_throws b (wsUrl ch) \<longrightarrow>
      trying b (length (closures v)) 0 (snd (render b (Some ch) v))"
  proof (rule impI)
    assume a: "v = snd (run b pre mount) \<and> deps v \<noteq> Some (Some ch) \<and> ch \<noteq> []
        \<and> ch \<noteq> ''undefined'' \<and> getToken b = Inr (Some (t # ts))
        \<and> \<not> WebSocket_throws b (wsUrl ch)"
    then have v: "v = snd (run b pre mount)" and d: "deps v \<noteq> Some (Some ch)"
      and ch: "ch \<noteq> []" "ch \<noteq> ''undefined''" and tok: "getToken b = Inr (Some (t # ts))"
      and u: "\<not> WebSocket_throws b (wsUrl ch)"
      by blast+
    have "wf b v"
      unfolding v using wf_mount by (rule wf_run)
    then show "trying b (length (closures v)) 0 (snd (render b (Some ch) v))"
      using d ch tok u by (rule trying_after_bind)
  qed
next
  show "trying b c k v \<and> live c (sockets v) s \<and> readyState (sockets v ! s) = CONNECTING \<longrightarrow>
      trying b c 0 (snd (step b (Opened s) v))"
    using trying_after_open [of b c k v s] by blast
next
  show "trying b c 0 init \<and> undisturbed c b evs init \<and> n = count_closures c b evs init
        \<and> w = snd (run b evs init) \<longrightarrow>
        n \<le> Suc maxReconnectAttempts
        \<and> (n \<le> maxReconnectAttempts \<longrightarrow>
             (trying b c n w \<or> (1 \<le> n \<and> reconnecting b c (n - 1) w)) \<and> \<not> failed c w)
        \<and> (n = Suc maxReconnectAttempts \<longrightarrow> failed c w)
        \<and> (\<forall>s' code. live c (sockets w) s' \<and> abnormal code \<longrightarrow>
             (n < maxReconnectAttempts \<longrightarrow>
                reconnecting b c n (snd (step b (Closed_with s' code) w))
                \<and> error (snd (step b (Closed_with s' code) w)) = error w)
             \<and> (n = maxReconnectAttempts \<longrightarrow>
                failed c (snd (step b (Closed_with s' code) w))
                \<and> error (snd (step b (Closed_with s' code) w))
                    = Some ''Could not reconnect to chat. Please refresh the page.''
                \<and> timers (snd (step b (Closed_with s' code) w)) = timers w))"
  proof (rule impI)
    assume a: "trying b c 0 init \<and> undisturbed c b evs init \<and> n = count_closures c b evs init
          \<and> w = snd (run b evs init)"
    then have t0: "trying b c 0 init" and un: "undisturbed c b evs init"
      and n: "n = count_closures c b evs init" and w: "w = snd (run b evs init)"
      by blast+
    from t0 have "phase b c 0 init"
      unfolding phase_def by blast
    from phase_run [OF this un] have p: "phase b c n w"
      unfolding n w by simp
    have next_closure: "(n < maxReconnectAttempts \<longrightarrow>
           reconnecting b c n (snd (step b (Closed_with s' code) w))
           \<and> error (snd (step b (Closed_with s' code) w)) = error w)
        \<and> (n = maxReconnectAttempts \<longrightarrow>
           failed c (snd (step b (Closed_with s' code) w))
           \<and> error (snd (step b (Closed_with s' code) w))
               = Some ''Could not reconnect to chat. Please refresh the page.''
           \<and> timers (snd (step b (Closed_with s' code) w)) = timers w)"
      if l: "live c (sockets w) s' \<and> abnormal code" for s' code
    proof -
      from l have l1: "live c (sockets w) s'" and l2: "abnormal code"
        by blast+
      from p l1 have "trying b c n w"
        by (rule phase_live)
      from close_trying [OF this l1 l2] show ?thesis .
    qed
    from phase_bounds [OF p] next_closure
    show "n \<le> Suc maxReconnectAttempts
        \<and> (n \<le> maxReconnectAttempts \<longrightarrow>
             (trying b c n w \<or> (1 \<le> n \<and> reconnecting b c (n - 1) w)) \<and> \<not> failed c w)
        \<and> (n = Suc maxReconnectAttempts \<longrightarrow> failed c w)
        \<and> (\<forall>s' code. live c (sockets w) s' \<and> abnormal code \<longrightarrow>
             (n < maxReconnectAttempts \<longrightarrow>
                reconnecting b c n (snd (step b (Closed_with s' code) w))
                \<and> error (snd (step b (Closed_with s' code) w)) = error w)
             \<and> (n = maxReconnectAttempts \<longrightarrow>
                failed c (snd (step b (Closed_with s' code) w))
                \<and> error (snd (step b (Closed_with s' code) w))
                    = Some ''Could not reconnect to chat. Please refresh the page.''
                \<and> timers (snd (step b (Closed_with s' code) w)) = timers w))"
      by blast
  qed
qed

theorem C2_reconnect_ceiling_witness:
  "trying a_browser 0 0 (snd (render a_browser (Some ''general'') mount))
   \<and> trying a_browser 0 0 (snd (step a_browser (Opened 2) (retrying ''general'' ''tok'' 2)))
   \<and> trying a_browser 0 0 bound_and_open
   \<and> live 0 (sockets bound_and_open) 0 \<and> abnormal 1006
   \<and> reconnecting a_browser 0 0 (snd (step a_browser (Closed_with 0 1006) bound_and_open))
   \<and> snd (render a_browser (Some ''general'') mount) = retrying ''general'' ''tok'' 0
   \<and> count_closures 0 a_browser
        [Closed_with 0 1006, Timer_fired 0, Closed_with 1 1006, Timer_fired 1,
         Closed_with 2 1006, Timer_fired 2, Closed_with 3 1006, Timer_fired 3,
         Closed_with 4 1006, Timer_fired 4, Closed_with 5 1006]
        (retrying ''general'' ''tok'' 0) = 6
   \<and> failed 0 (snd (run a_browser
        [Closed_with 0 1006, Timer_fired 0, Closed_with 1 1006, Timer_fired 1,
         Closed_with 2 1006, Timer_fired 2, Closed_with 3 1006, Timer_fired 3,
         Closed_with 4 1006, Timer_fired 4, Closed_with 5 1006]
        (retrying ''general'' ''tok'' 0)))
   \<and> error (snd (step a_browser (Closed_with 5 1006) (retrying ''general'' ''tok'' 5)))
       = Some ''Could not reconnect to chat. Please refresh the page.''"
proof -
  let ?r = "retrying ''general'' ''tok''"
  let ?five = "[Closed_with 0 1006, Timer_fired 0, Closed_with 1 1006, Timer_fired 1,
         Closed_with 2 1006, Timer_fired 2, Closed_with 3 1006, Timer_fired 3,
         Closed_with 4 1006, Timer_fired 4]"
  let ?six = "[Closed_with 0 1006, Timer_fired 0, Closed_with 1 1006, Timer_fired 1,
         Closed_with 2 1006, Timer_fired 2, Closed_with 3 1006, Timer_fired 3,
         Closed_with 4 1006, Timer_fired 4, Closed_with 5 1006]"
  have fresh: "snd (render a_browser (Some ''general'') mount) = ?r 0"
    using a_browser_bind by simp
  have bind: "trying a_browser 0 0 (snd (render a_browser (Some ''general'') mount))"
    using C2_reconnect_ceiling [where v = mount and b = a_browser and pre = "[]"
        and ch = "''general''" and t = "CHR ''t''" and ts = "''ok''"]
      a_browser_token a_browser_accepts
    by (simp add: mount_def)
  have t2: "trying a_browser 0 2 (?r 2)"
    by (rule trying_retrying) (simp_all add: maxReconnectAttempts_def a_browser_accepts)
  have l2: "live 0 (sockets (?r 2)) 2"
    by (simp add: live_retrying)
  have c2: "readyState (sockets (?r 2) ! 2) = CONNECTING"
    by (simp add: retrying_def socket_of_def nth_append)
  have reopened: "trying a_browser 0 0 (snd (step a_browser (Opened 2) (?r 2)))"
    by (rule C2_reconnect_ceiling [where v = "?r 2" and b = a_browser and c = 0 and k = 2
        and s = 2, THEN conjunct2, THEN conjunct1, THEN mp]) (intro conjI t2 l2 c2)
  have o: "live 0 (sockets (?r 0)) 0"
    by (simp add: live_retrying)
  have co: "readyState (sockets (?r 0) ! 0) = CONNECTING"
    by (simp add: retrying_def socket_of_def)
  have "bound_and_open = snd (step a_browser (Opened 0) (?r 0))"
    unfolding bound_and_open_def by (simp only: run.simps a_browser_bind prod.case option.case)
simp
  moreover have "trying a_browser 0 0 (snd (step a_browser (Opened 0) (?r 0)))"
    by (rule C2_reconnect_ceiling [where v = "?r 0" and b = a_browser and c = 0 and k = 0
        and s = 0, THEN conjunct2, THEN conjunct1, THEN mp])
      (intro conjI bind [unfolded fresh] o co)
  ultimately have opened: "trying a_browser 0 0 bound_and_open"
    by (simp only:)
  have lo: "live 0 (sockets bound_and_open) 0"
    by (simp add: bound_and_open_eq live_def)
  have m: "0 < maxReconnectAttempts" "6 = Suc maxReconnectAttempts" "5 = maxReconnectAttempts"
    by (simp_all add: maxReconnectAttempts_def)
  have u0: "undisturbed 0 a_browser [] bound_and_open"
    "0 = count_closures 0 a_browser [] bound_and_open"
    "bound_and_open = snd (run a_browser [] bound_and_open)"
    by simp_all
  note c0 = C2_reconnect_ceiling [where init = bound_and_open and b = a_browser and c = 0
      and evs = "[]" and n = 0 and w = bound_and_open, THEN conjunct2, THEN conjunct2, THEN mp]
  have first: "reconnecting a_browser 0 0
      (snd (step a_browser (Closed_with 0 1006) bound_and_open))"
    using c0 [OF conjI [OF opened conjI [OF u0(1) conjI [OF u0(2) u0(3)]]]]
      lo abnormal_1006 m(1)
    by blast
  have t0: "trying a_browser 0 0 (?r 0)"
    using bind unfolding fresh .
  have u6: "undisturbed 0 a_browser ?six (?r 0)"
    by (simp only: failing_run)
  have n6: "count_closures 0 a_browser ?six (?r 0) = 6"
    by (simp only: failing_run)
  note c6 = C2_reconnect_ceiling [where init = "?r 0" and b = a_browser and c = 0
      and evs = ?six and n = 6 and w = "snd (run a_browser ?six (?r 0))",
      THEN conjunct2, THEN conjunct2, THEN mp]
  have six: "failed 0 (snd (run a_browser ?six (?r 0)))"
    using c6 [OF conjI [OF t0 conjI [OF u6 conjI [OF n6 [symmetric] refl]]]] m(2)
    by blast
  have u5: "undisturbed 0 a_browser ?five (?r 0)"
    by (simp only: failing_run)
  have n5: "count_closures 0 a_browser ?five (?r 0) = 5"
    by (simp only: failing_run)
  have w5: "snd (run a_browser ?five (?r 0)) = ?r 5"
    by (simp only: failing_run)
  have l5: "live 0 (sockets (?r 5)) 5"
    by (simp add: live_retrying)
  note c5 = C2_reconnect_ceiling [where init = "?r 0" and b = a_browser and c = 0
      and evs = ?five and n = 5 and w = "?r 5", THEN conjunct2, THEN conjunct2, THEN mp]
  have last: "error (snd (step a_browser (Closed_with 5 1006) (?r 5)))
       = Some ''Could not reconnect to chat. Please refresh the page.''"
    using c5 [OF conjI [OF t0 conjI [OF u5 conjI [OF n5 [symmetric] w5 [symmetric]]]]]
      l5 abnormal_1006 m(3)
    by blast
  from bind reopened opened lo abnormal_1006 first fresh n6 six last
  show ?thesis by blast
qed

end
